theory Spec2Isabelle
  imports Main "HOL-Library.Sublist"
begin

section \<open>Text and regular-expression primitives\<close>

text \<open>
  Python's \<open>str\<close> is modelled as \<open>string\<close>: a list of characters, each one a code point
  below 256. Lengths and slices count characters, as Python's do.
\<close>

definition newline :: char where
  "newline = CHR 0x0A"

definition lower :: "char \<Rightarrow> char" where
  \<comment> \<open>case folding as \<open>re.IGNORECASE\<close> needs it for the letters of the patterns below\<close>
  "lower c =
     (case map_of (zip ''ABCDEFGHIJKLMNOPQRSTUVWXYZ'' ''abcdefghijklmnopqrstuvwxyz'') c of
        Some l \<Rightarrow> l
      | None \<Rightarrow> c)"

definition isspace :: "char \<Rightarrow> bool" where
  \<comment> \<open>\<open>str.isspace\<close> on the code points below 256\<close>
  "isspace c = (c \<in> set [CHR 0x09, CHR 0x0A, CHR 0x0B, CHR 0x0C, CHR 0x0D,
                          CHR 0x1C, CHR 0x1D, CHR 0x1E, CHR 0x1F, CHR 0x20,
                          CHR 0x85, CHR 0xA0])"

definition strip :: "string \<Rightarrow> string" where
  \<comment> \<open>\<open>str.strip()\<close>\<close>
  "strip s = rev (dropWhile isspace (rev (dropWhile isspace s)))"

fun match_ci :: "string \<Rightarrow> string \<Rightarrow> string option" where
  \<comment> \<open>a literal pattern at the front of the text, ignoring case; the rest on success\<close>
  "match_ci [] s = Some s"
| "match_ci (p # ps) [] = None"
| "match_ci (p # ps) (c # cs) = (if lower c = lower p then match_ci ps cs else None)"

fun lazy_until :: "string \<Rightarrow> string \<Rightarrow> (string \<times> string) option" where
  \<comment> \<open>\<open>(.*?)\<close> followed by a literal, with \<open>re.DOTALL\<close>: the shortest span after which
      the literal matches; the span and the text after the literal\<close>
  "lazy_until pat [] =
     (case match_ci pat [] of Some r \<Rightarrow> Some ([], r) | None \<Rightarrow> None)"
| "lazy_until pat (c # cs) =
     (case match_ci pat (c # cs) of
        Some r \<Rightarrow> Some ([], r)
      | None \<Rightarrow> (case lazy_until pat cs of
                   Some (g, r) \<Rightarrow> Some (c # g, r)
                 | None \<Rightarrow> None))"

definition match_text_element :: "string \<Rightarrow> (string \<times> string) option" where
  \<comment> \<open>one match of \<open><text[^>]*>(.*?)</text>\<close> at the front of the text, as the
      backtracking matcher finds it: group 1 and the text after the match. The greedy
      \<open>[^>]*\<close> runs to the first \<open>>\<close>; giving characters back cannot help, since none
      of them is \<open>>\<close>. The lazy \<open>(.*?)\<close> then ends at the first \<open></text>\<close>.\<close>
  "match_text_element s =
     (case match_ci ''<text'' s of
        None \<Rightarrow> None
      | Some r1 \<Rightarrow>
          (case dropWhile (\<lambda>c. c \<noteq> CHR ''>'') r1 of
             [] \<Rightarrow> None
           | _ # r2 \<Rightarrow> lazy_until ''</text>'' r2))"

definition match_tag :: "string \<Rightarrow> string option" where
  \<comment> \<open>one match of \<open><[^>]+>\<close> at the front of the text: \<open><\<close>, one character or
      more other than \<open>>\<close>, and the first \<open>>\<close>; the text after the match\<close>
  "match_tag s =
     (case s of
        [] \<Rightarrow> None
      | c # cs \<Rightarrow>
          if c \<noteq> CHR ''<'' then None
          else (case cs of
                  [] \<Rightarrow> None
                | d # ds \<Rightarrow>
                    if d = CHR ''>'' then None
                    else (case dropWhile (\<lambda>c. c \<noteq> CHR ''>'') ds of
                            [] \<Rightarrow> None
                          | _ # rest \<Rightarrow> Some rest)))"

lemma match_ci_length: "match_ci p s = Some r \<Longrightarrow> length r + length p = length s"
  by (induction p s rule: match_ci.induct) (auto split: if_splits)

lemma lazy_until_length:
  "lazy_until p s = Some (g, r) \<Longrightarrow> length g + length p + length r = length s"
proof (induction s arbitrary: g r)
  case Nil
  then show ?case by (auto split: option.splits dest: match_ci_length)
next
  case (Cons c cs)
  show ?case
  proof (cases "match_ci p (c # cs)")
    case (Some r')
    with Cons.prems show ?thesis by (auto dest: match_ci_length)
  next
    case None
    with Cons.prems obtain g' where "lazy_until p cs = Some (g', r)" "g = c # g'"
      by (auto split: option.splits)
    with Cons.IH [of g' r] show ?thesis by simp
  qed
qed

lemma match_text_element_shorter:
  "match_text_element s = Some (g, r) \<Longrightarrow> length r < length s"
proof -
  assume a: "match_text_element s = Some (g, r)"
  then obtain r1 where r1: "match_ci ''<text'' s = Some r1"
    by (auto simp: match_text_element_def split: option.splits)
  with a obtain x r2 where r2: "dropWhile (\<lambda>c. c \<noteq> CHR ''>'') r1 = x # r2"
    and l: "lazy_until ''</text>'' r2 = Some (g, r)"
    by (auto simp: match_text_element_def split: list.splits)
  have "length (dropWhile (\<lambda>c. c \<noteq> CHR ''>'') r1) \<le> length r1"
    by (rule length_dropWhile_le)
  with r2 have "length r2 < length r1" by simp
  moreover from l have "length r \<le> length r2" by (auto dest: lazy_until_length)
  moreover from r1 have "length r1 \<le> length s" by (auto dest: match_ci_length)
  ultimately show ?thesis by simp
qed

lemma match_tag_shorter: "match_tag s = Some r \<Longrightarrow> length r < length s"
proof -
  assume a: "match_tag s = Some r"
  then obtain d ds x where s: "s = CHR ''<'' # d # ds"
    and r: "dropWhile (\<lambda>c. c \<noteq> CHR ''>'') ds = x # r"
    by (auto simp: match_tag_def split: list.splits if_splits)
  have "length (dropWhile (\<lambda>c. c \<noteq> CHR ''>'') ds) \<le> length ds"
    by (rule length_dropWhile_le)
  with r s show ?thesis by simp
qed

function finditer_text :: "string \<Rightarrow> string list" where
  \<comment> \<open>\<open>re.finditer(r"<text[^>]*>(.*?)</text>", s, re.IGNORECASE | re.DOTALL)\<close>: group 1
      of each match, leftmost first, the search resuming after each match\<close>
  "finditer_text [] = []"
| "finditer_text (c # cs) =
     (case match_text_element (c # cs) of
        Some (g, r) \<Rightarrow> g # finditer_text r
      | None \<Rightarrow> finditer_text cs)"
  by pat_completeness auto
termination
  by (relation "measure length") (auto dest: match_text_element_shorter)

function strip_tags :: "string \<Rightarrow> string" where
  \<comment> \<open>\<open>re.sub(r"<[^>]+>", "", s)\<close>\<close>
  "strip_tags [] = []"
| "strip_tags (c # cs) =
     (case match_tag (c # cs) of
        Some r \<Rightarrow> strip_tags r
      | None \<Rightarrow> c # strip_tags cs)"
  by pat_completeness auto
termination
  by (relation "measure length") (auto dest: match_tag_shorter)

section \<open>Signal extractor\<close>

fun extract_loop :: "int \<Rightarrow> string list \<Rightarrow> string list \<Rightarrow> string list" where
  \<comment> \<open>the body of the \<open>for\<close> loop over the matches, \<open>labels\<close> being the list built so far\<close>
  "extract_loop max_labels [] labels = labels"
| "extract_loop max_labels (g # gs) labels =
     (let label = strip (strip_tags g) in
      if label = [] then extract_loop max_labels gs labels
      else let labels' = labels @ [label] in
           if int (length labels') \<ge> max_labels then labels'
           else extract_loop max_labels gs labels')"

definition extract_svg_labels :: "string \<Rightarrow> int \<Rightarrow> string list" where
  "extract_svg_labels svg_text max_labels =
     extract_loop max_labels (finditer_text svg_text) []"

datatype json =
    JNull
  | JBool bool
  | JInt int
  | JFloat string
  | JString string
  | JArray "json list"
  | JObject "(string \<times> json) list"

text \<open>
  A value as \<open>json.loads\<close> returns it: \<open>None\<close>, a \<open>bool\<close>, an \<open>int\<close>, a \<open>float\<close>
  (kept as its literal, no operation of the program looks into it), a \<open>str\<close>, a \<open>list\<close>
  or a \<open>dict\<close>. A \<open>dict\<close> is an association list read with \<open>map_of\<close>.
\<close>

datatype exn =
    AttributeError
  | OSError
  | UnicodeError
  | ValueError
  | IndexError
  | TypeError
  | ServiceError
  | RuntimeError string

type_synonym bytes = string

record library =
  json_loads :: "string \<Rightarrow> json option"
  b64decode :: "string \<Rightarrow> bytes option"
  decode_strict :: "bytes \<Rightarrow> string option"
  decode_ignore :: "bytes \<Rightarrow> string"
  encode :: "string \<Rightarrow> bytes option"

text \<open>
  The library functions the program calls, as parameters: \<open>json.loads\<close> and
  \<open>base64.b64decode\<close> (\<open>None\<close> where they raise), and the text codec of the locale:
  decoding with \<open>errors="strict"\<close> (\<open>None\<close> where it raises) and with
  \<open>errors="ignore"\<close>, and encoding (\<open>None\<close> where it raises).
\<close>

type_synonym path = "string list"

text \<open>A resolved absolute path, as the list of its components; \<open>[]\<close> is the root.\<close>

datatype node = Directory | Regular bytes

record request =
  req_model :: string
  req_prompt :: string
  req_size :: string

record world =
  fs :: "path \<rightharpoonup> node"
  stat_error :: "path set"
  locked :: "path set"
  environ :: "string \<rightharpoonup> string"
  openai_installed :: bool
  remote :: "request \<Rightarrow> exn + string option list"
  requests :: "request list"
  stdout :: "string list"
  stderr :: "string list"

text \<open>
  What the process can see and change: the file system; the paths in \<open>stat_error\<close>, which
  the system refuses to look up with an error other than "no such file" (no search
  permission on a directory above, a name that is too long), so that every call on them
  raises \<open>OSError\<close>; the paths \<open>locked\<close> that the process may neither read nor create
  nor write; the environment variables; whether the package \<open>openai\<close> can be imported;
  the answer of the image service to a request (an exception, or the \<open>b64_json\<close> field
  of each item of \<open>result.data\<close>); the requests sent to the service so far; the lines
  printed so far.
\<close>

definition is_file :: "world \<Rightarrow> path \<Rightarrow> exn + bool" where
  \<comment> \<open>\<open>Path.is_file()\<close>: it returns \<open>False\<close> where \<open>stat\<close> reports that there is no such
      file (\<open>ENOENT\<close>, \<open>ENOTDIR\<close>, \<open>EBADF\<close>, \<open>ELOOP\<close>) and raises every other error of
      \<open>stat\<close> again (\<open>EACCES\<close>, \<open>ENAMETOOLONG\<close>)\<close>
  "is_file w p =
     (if p \<in> stat_error w then Inl OSError
      else Inr (case fs w p of Some (Regular b) \<Rightarrow> True | _ \<Rightarrow> False))"

definition read_bytes :: "world \<Rightarrow> path \<Rightarrow> exn + bytes" where
  "read_bytes w p =
     (if p \<in> stat_error w then Inl OSError
      else case fs w p of
             Some (Regular b) \<Rightarrow> if p \<in> locked w then Inl OSError else Inr b
           | _ \<Rightarrow> Inl OSError)"

definition read_text :: "library \<Rightarrow> world \<Rightarrow> path \<Rightarrow> exn + string" where
  \<comment> \<open>\<open>Path.read_text()\<close>\<close>
  "read_text lib w p =
     (case read_bytes w p of
        Inl e \<Rightarrow> Inl e
      | Inr b \<Rightarrow> (case decode_strict lib b of
                    None \<Rightarrow> Inl UnicodeError
                  | Some s \<Rightarrow> Inr s))"

definition read_text_ignore :: "library \<Rightarrow> world \<Rightarrow> path \<Rightarrow> exn + string" where
  \<comment> \<open>\<open>Path.read_text(errors="ignore")\<close>\<close>
  "read_text_ignore lib w p =
     (case read_bytes w p of
        Inl e \<Rightarrow> Inl e
      | Inr b \<Rightarrow> Inr (decode_ignore lib b))"

definition parent :: "path \<Rightarrow> path" where
  "parent p = butlast p"

function mkdir_parents :: "world \<Rightarrow> path \<Rightarrow> exn option \<times> world" where
  \<comment> \<open>\<open>Path.mkdir(parents=True, exist_ok=True)\<close>: the exception raised, if any, and the
      world with the directories created until then\<close>
  "mkdir_parents w d =
     (if d \<in> stat_error w then (Some OSError, w)
      else case fs w d of
        Some Directory \<Rightarrow> (None, w)
      | Some (Regular b) \<Rightarrow> (Some OSError, w)
      | None \<Rightarrow>
          if d = [] then (Some OSError, w)
          else (case mkdir_parents w (parent d) of
                  (Some e, w') \<Rightarrow> (Some e, w')
                | (None, w') \<Rightarrow>
                    if d \<in> locked w' then (Some OSError, w')
                    else (None, w'\<lparr>fs := (fs w')(d \<mapsto> Directory)\<rparr>)))"
  by pat_completeness auto
termination
  by (relation "measure (\<lambda>(w, d). length d)") (auto simp: parent_def)

declare mkdir_parents.simps [simp del]

definition can_open_for_writing :: "world \<Rightarrow> path \<Rightarrow> bool" where
  "can_open_for_writing w p =
     (p \<noteq> [] \<and> p \<notin> stat_error w \<and> fs w p \<noteq> Some Directory
      \<and> fs w (parent p) = Some Directory \<and> p \<notin> locked w)"

definition write_bytes :: "world \<Rightarrow> path \<Rightarrow> bytes \<Rightarrow> exn option \<times> world" where
  \<comment> \<open>\<open>Path.write_bytes(data)\<close>\<close>
  "write_bytes w p b =
     (if \<not> can_open_for_writing w p then (Some OSError, w)
      else (None, w\<lparr>fs := (fs w)(p \<mapsto> Regular b)\<rparr>))"

definition write_text :: "library \<Rightarrow> world \<Rightarrow> path \<Rightarrow> string \<Rightarrow> exn option \<times> world" where
  \<comment> \<open>\<open>Path.write_text(data)\<close>: the file is opened, and so emptied, before the text is
      encoded\<close>
  "write_text lib w p s =
     (if \<not> can_open_for_writing w p then (Some OSError, w)
      else (case encode lib s of
              None \<Rightarrow> (Some UnicodeError, w\<lparr>fs := (fs w)(p \<mapsto> Regular [])\<rparr>)
            | Some b \<Rightarrow> (None, w\<lparr>fs := (fs w)(p \<mapsto> Regular b)\<rparr>)))"

definition dict_get :: "(string \<times> json) list \<Rightarrow> string \<Rightarrow> json \<Rightarrow> json" where
  \<comment> \<open>\<open>dict.get(key, default)\<close>\<close>
  "dict_get d k dflt = (case map_of d k of Some v \<Rightarrow> v | None \<Rightarrow> dflt)"

definition len_if_list :: "json \<Rightarrow> int" where
  \<comment> \<open>\<open>len(v) if isinstance(v, list) else 0\<close>\<close>
  "len_if_list v = (case v of JArray xs \<Rightarrow> int (length xs) | _ \<Rightarrow> 0)"

definition read_layout_stats :: "library \<Rightarrow> world \<Rightarrow> path option \<Rightarrow> exn + (int \<times> int)" where
  "read_layout_stats lib w layout_path =
     (case layout_path of
        None \<Rightarrow> Inr (0, 0)
      | Some p \<Rightarrow>
          (case is_file w p of
             Inl e \<Rightarrow> Inl e
           | Inr found \<Rightarrow>
          if \<not> found then Inr (0, 0)
          else (case (case read_text lib w p of
                        Inl e \<Rightarrow> None
                      | Inr s \<Rightarrow> json_loads lib s) of
                  None \<Rightarrow> Inr (0, 0)
                | Some payload \<Rightarrow>
                    (case payload of
                       JObject d \<Rightarrow>
                         (let nodes = dict_get d ''nodes'' (JArray []);
                              edges = dict_get d ''edges'' (JArray []);
                              node_count = len_if_list nodes;
                              edge_count = len_if_list edges
                          in Inr (node_count, edge_count))
                     | _ \<Rightarrow> Inl AttributeError))))"

section \<open>Prompt assembler\<close>

definition digit_char :: "nat \<Rightarrow> char" where
  "digit_char d = ''0123456789'' ! d"

fun str_nat :: "nat \<Rightarrow> string" where
  "str_nat n = (if n < 10 then [digit_char n] else str_nat (n div 10) @ [digit_char (n mod 10)])"

declare str_nat.simps [simp del]

definition str_int :: "int \<Rightarrow> string" where
  \<comment> \<open>\<open>str(i)\<close>, as an f-string formats an \<open>int\<close>\<close>
  "str_int i = (if i < 0 then CHR ''-'' # str_nat (nat (- i)) else str_nat (nat i))"

fun join_lines :: "string list \<Rightarrow> string" where
  \<comment> \<open>\<open>"\n".join(lines)\<close>\<close>
  "join_lines [] = []"
| "join_lines [l] = l"
| "join_lines (l # m # ls) = l @ newline # join_lines (m # ls)"

definition prompt_lines ::
  "string \<Rightarrow> string list \<Rightarrow> int \<Rightarrow> int \<Rightarrow> string \<Rightarrow> string \<Rightarrow> string \<Rightarrow> string list" where
  \<comment> \<open>the list \<open>lines\<close> when \<open>build_prompt\<close> returns\<close>
  "prompt_lines svg_text labels node_count edge_count config level block =
     [''Create a polished hardware architecture block diagram image.'',
      ''Use the supplied SVG as structural ground truth.'',
      ''Preserve block names and connectivity intent.'',
      [],
      ''Context:'']
     @ (if config \<noteq> [] then [''- CONFIG: '' @ config] else [])
     @ (if level \<noteq> [] then [''- LEVEL: '' @ level] else [])
     @ (if block \<noteq> [] then [''- BLOCK: '' @ block] else [])
     @ (if node_count > 0
        then [''- Approximate block count from layout JSON: '' @ str_int node_count] else [])
     @ (if edge_count > 0
        then [''- Approximate edge count from layout JSON: '' @ str_int edge_count] else [])
     @ (if labels \<noteq> []
        then ''- Labels discovered in source SVG:'' # map (\<lambda>label. ''  - '' @ label) labels
        else [])
     @ [[],
        ''Style constraints:'',
        ''- clean professional engineering style'',
        ''- white background'',
        ''- crisp readable labels'',
        ''- clear directional arrows'',
        ''- balanced spacing'',
        ''- no cartoon style'',
        ''- no code snippets'',
        ''- no electrical schematic symbols'',
        [],
        ''Output requirements:'',
        ''- Keep exact visible module names where possible.'',
        ''- Preserve high-level topology from the source SVG.'',
        ''- Improve visual clarity and slide-readability.'',
        [],
        ''Source SVG (for structure reference):'',
        take 18000 svg_text]"

definition build_prompt ::
  "string \<Rightarrow> string list \<Rightarrow> int \<Rightarrow> int \<Rightarrow> string \<Rightarrow> string \<Rightarrow> string \<Rightarrow> string" where
  "build_prompt svg_text labels node_count edge_count config level block =
     join_lines (prompt_lines svg_text labels node_count edge_count config level block)"

section \<open>Generation client\<close>

definition missing_package_message :: string where
  "missing_package_message =
     ''Missing Python package '' @ [CHR 0x27] @ ''openai'' @ [CHR 0x27]
     @ ''. Install it with '' @ [CHR 0x27]
     @ ''pip install -r tools/diagrammer/requirements-ai.txt'' @ [CHR 0x27] @ ''.''"

definition generate_image ::
  "library \<Rightarrow> string \<Rightarrow> string \<Rightarrow> string \<Rightarrow> world \<Rightarrow> (exn + bytes) \<times> world" where
  "generate_image lib prompt model sz w =
     (if \<not> openai_installed w then (Inl (RuntimeError missing_package_message), w)
      else if environ w ''OPENAI_API_KEY'' = None \<or> environ w ''OPENAI_API_KEY'' = Some []
      then (Inl (RuntimeError ''OPENAI_API_KEY is not set.''), w)
      else
        (let req = \<lparr>req_model = model, req_prompt = prompt, req_size = sz\<rparr>;
             w' = w\<lparr>requests := requests w @ [req]\<rparr>
         in case remote w req of
              Inl e \<Rightarrow> (Inl e, w')
            | Inr data \<Rightarrow>
                (case data of
                   [] \<Rightarrow> (Inl IndexError, w')
                 | item # _ \<Rightarrow>
                     (case item of
                        None \<Rightarrow> (Inl TypeError, w')
                      | Some image_b64 \<Rightarrow>
                          (case b64decode lib image_b64 of
                             None \<Rightarrow> (Inl ValueError, w')
                           | Some image_bytes \<Rightarrow> (Inr image_bytes, w'))))))"

section \<open>Pipeline driver\<close>

record args =
  input_svg :: path
  layout_json :: "path option"
  arg_config :: string
  arg_level :: string
  arg_block :: string
  prompt_out :: path
  image_out :: path
  arg_model :: string
  arg_size :: string

text \<open>
  The namespace \<open>parse_args\<close> returns, each path in the form \<open>Path.resolve\<close> gives it.
\<close>

datatype outcome = Return int | Raised exn

definition exit_status :: "outcome \<Rightarrow> int" where
  \<comment> \<open>\<open>raise SystemExit(main())\<close>: the value \<open>main\<close> returns is the exit status; an
      exception that leaves \<open>main\<close> ends the interpreter with status 1\<close>
  "exit_status out = (case out of Return n \<Rightarrow> n | Raised e \<Rightarrow> 1)"

definition path_str :: "path \<Rightarrow> string" where
  "path_str p = (if p = [] then ''/'' else concat (map (\<lambda>c. CHR ''/'' # c) p))"

definition layout_report :: "world \<Rightarrow> path option \<Rightarrow> exn + string list" where
  \<comment> \<open>the line printed under \<open>if layout_json and layout_json.is_file()\<close>\<close>
  "layout_report w lp =
     (case lp of
        None \<Rightarrow> Inr []
      | Some p \<Rightarrow>
          (case is_file w p of
             Inl e \<Rightarrow> Inl e
           | Inr found \<Rightarrow> Inr (if found then [''Layout JSON:    '' @ path_str p] else [])))"

definition main :: "library \<Rightarrow> args \<Rightarrow> world \<Rightarrow> outcome \<times> world" where
  "main lib a w =
     (case is_file w (input_svg a) of
        Inl e \<Rightarrow> (Raised e, w)
      | Inr found \<Rightarrow>
      if \<not> found then
        (Return 2,
         w\<lparr>stderr := stderr w @ [''ERROR: input SVG not found: '' @ path_str (input_svg a)]\<rparr>)
      else
        case read_text_ignore lib w (input_svg a) of
          Inl e \<Rightarrow> (Raised e, w)
        | Inr svg_text \<Rightarrow>
        let labels = extract_svg_labels svg_text 80 in
        case read_layout_stats lib w (layout_json a) of
          Inl e \<Rightarrow> (Raised e, w)
        | Inr (node_count, edge_count) \<Rightarrow>
        let prompt = build_prompt svg_text labels node_count edge_count
                       (arg_config a) (arg_level a) (arg_block a) in
        case mkdir_parents w (parent (prompt_out a)) of
          (Some e, w1) \<Rightarrow> (Raised e, w1)
        | (None, w1) \<Rightarrow>
        case mkdir_parents w1 (parent (image_out a)) of
          (Some e, w2) \<Rightarrow> (Raised e, w2)
        | (None, w2) \<Rightarrow>
        case write_text lib w2 (prompt_out a) prompt of
          (Some e, w3) \<Rightarrow> (Raised e, w3)
        | (None, w3) \<Rightarrow>
        case generate_image lib prompt (arg_model a) (arg_size a) w3 of
          (Inl e, w4) \<Rightarrow> (Raised e, w4)
        | (Inr image_bytes, w4) \<Rightarrow>
        case write_bytes w4 (image_out a) image_bytes of
          (Some e, w5) \<Rightarrow> (Raised e, w5)
        | (None, w5) \<Rightarrow>
        let w6 = w5\<lparr>stdout := stdout w5 @ [''Input SVG:      '' @ path_str (input_svg a)]\<rparr> in
        case layout_report w6 (layout_json a) of
          Inl e \<Rightarrow> (Raised e, w6)
        | Inr layout_line \<Rightarrow>
            (Return 0,
             w6\<lparr>stdout := stdout w6 @ layout_line
                    @ [''Saved prompt:   '' @ path_str (prompt_out a),
                       ''Saved image:    '' @ path_str (image_out a)]\<rparr>))"

section \<open>Notions the properties are stated with\<close>

fun contains_tag :: "string \<Rightarrow> bool" where
  \<comment> \<open>the tag pattern \<open><[^>]+>\<close> of \<open>extract_svg_labels\<close> matches somewhere in the text\<close>
  "contains_tag [] = False"
| "contains_tag (c # cs) = (match_tag (c # cs) \<noteq> None \<or> contains_tag cs)"

definition all_labels :: "string list \<Rightarrow> string list" where
  \<comment> \<open>the labels of all matches, as an unbounded run of the loop would collect them\<close>
  "all_labels gs = filter (\<lambda>l. l \<noteq> []) (map (\<lambda>g. strip (strip_tags g)) gs)"

definition is_dict :: "json \<Rightarrow> bool" where
  \<comment> \<open>\<open>isinstance(v, dict)\<close>\<close>
  "is_dict v = (case v of JObject d \<Rightarrow> True | _ \<Rightarrow> False)"

definition field_count :: "(string \<times> json) list \<Rightarrow> string \<Rightarrow> int" where
  \<comment> \<open>in the words of the specification: the length of the field when it is present and
      a sequence, 0 when it is absent or not a sequence\<close>
  "field_count d k =
     (case map_of d k of
        None \<Rightarrow> 0
      | Some v \<Rightarrow> (case v of JArray xs \<Rightarrow> int (length xs) | _ \<Rightarrow> 0))"

fun lines_of :: "string \<Rightarrow> string list" where
  \<comment> \<open>the lines of a text, as \<open>text.split("\n")\<close> gives them\<close>
  "lines_of [] = [[]]"
| "lines_of (c # cs) =
     (if c = newline then [] # lines_of cs
      else (case lines_of cs of l # ls \<Rightarrow> (c # l) # ls | [] \<Rightarrow> [[c]]))"

definition emitted_lines ::
  "string \<Rightarrow> string list \<Rightarrow> int \<Rightarrow> int \<Rightarrow> string \<Rightarrow> string \<Rightarrow> string \<Rightarrow> string list" where
  \<comment> \<open>the entries \<open>build_prompt\<close> appends to \<open>lines\<close> before the source excerpt\<close>
  "emitted_lines svg_text labels node_count edge_count config level block =
     butlast (prompt_lines svg_text labels node_count edge_count config level block)"

definition lines_before_excerpt :: "string \<Rightarrow> string \<Rightarrow> string list" where
  \<comment> \<open>the lines of a prompt before the source excerpt: the prompt without its last line
      break and the excerpt \<open>svg_text[:18000]\<close> after it\<close>
  "lines_before_excerpt svg_text prompt =
     lines_of (take (length prompt - Suc (length (take 18000 svg_text))) prompt)"

definition prompt_head_lines ::
  "string \<Rightarrow> string list \<Rightarrow> int \<Rightarrow> int \<Rightarrow> string \<Rightarrow> string \<Rightarrow> string \<Rightarrow> string list" where
  \<comment> \<open>the lines before the source excerpt in the prompt that \<open>build_prompt\<close> returns\<close>
  "prompt_head_lines svg_text labels node_count edge_count config level block =
     lines_before_excerpt svg_text
       (build_prompt svg_text labels node_count edge_count config level block)"

definition no_line_break :: "string \<Rightarrow> bool" where
  "no_line_break s = (newline \<notin> set s)"

definition purpose_and_context_header :: string where
  \<comment> \<open>the text every prompt starts with, up to the line \<open>Context:\<close>\<close>
  "purpose_and_context_header =
     join_lines [''Create a polished hardware architecture block diagram image.'',
                 ''Use the supplied SVG as structural ground truth.'',
                 ''Preserve block names and connectivity intent.'',
                 [],
                 ''Context:'']"

section \<open>Example inputs\<close>

text \<open>
  Concrete inputs at which the theorems below are instantiated. \<open>example_loads\<close> gives
  the value of \<open>json.loads\<close> on the documents of the examples and stands for an
  exception on every other text (\<open>broken_doc\<close>, cut short, is one where
  \<open>json.loads\<close> does raise); \<open>example_lib\<close> takes the text codec to be the identity
  on characters below 256. In \<open>example_world\<close> the credential is not set, the file
  \<open>secret.json\<close> may not be read, the directory \<open>sealed\<close> may not be searched, so
  that the file in it cannot be looked up, no more than a file whose name is too long,
  and the service answers every request with one item, the base64 text of the three
  bytes \<open>PNG\<close>.
\<close>

definition layout_doc :: string where
  \<open>layout_doc = ''{"nodes": ["a", "b", "c"], "edges": ["x", "y"]}''\<close>

definition partial_doc :: string where
  \<open>partial_doc = ''{"nodes": 7}''\<close>

definition broken_doc :: string where
  \<open>broken_doc = ''{"nodes": [''\<close>

definition list_doc :: string where
  "list_doc = ''[1, 2]''"

definition example_loads :: "string \<Rightarrow> json option" where
  "example_loads s =
     (if s = layout_doc
      then Some (JObject [(''nodes'', JArray [JString ''a'', JString ''b'', JString ''c'']),
                          (''edges'', JArray [JString ''x'', JString ''y''])])
      else if s = partial_doc then Some (JObject [(''nodes'', JInt 7)])
      else if s = list_doc then Some (JArray [JInt 1, JInt 2])
      else None)"

definition example_lib :: library where
  "example_lib =
     \<lparr>json_loads = example_loads,
      b64decode = (\<lambda>s. if s = ''UE5H'' then Some ''PNG'' else None),
      decode_strict = Some,
      decode_ignore = (\<lambda>b. b),
      encode = Some\<rparr>"

definition example_svg :: string where
  "example_svg = ''<text>CPU</text><text>  </text><text>Memory</text>''"

definition long_name :: string where
  \<comment> \<open>a file name of 256 characters, one more than a file system takes\<close>
  "long_name = replicate 256 CHR ''a''"

definition example_world :: world where
  "example_world =
     \<lparr>fs = [[] \<mapsto> Directory,
             [''in.svg''] \<mapsto> Regular example_svg,
             [''layout.json''] \<mapsto> Regular layout_doc,
             [''partial.json''] \<mapsto> Regular partial_doc,
             [''list.json''] \<mapsto> Regular list_doc,
             [''broken.json''] \<mapsto> Regular broken_doc,
             [''secret.json''] \<mapsto> Regular list_doc,
             [''sealed''] \<mapsto> Directory,
             [''sealed'', ''layout.json''] \<mapsto> Regular layout_doc],
      stat_error = {[''sealed'', ''layout.json''], [long_name]},
      locked = {[''secret.json'']},
      environ = Map.empty,
      openai_installed = True,
      remote = (\<lambda>r. Inr [Some ''UE5H'']),
      requests = [],
      stdout = [],
      stderr = []\<rparr>"

definition example_args :: args where
  "example_args =
     \<lparr>input_svg = [''in.svg''], layout_json = None,
      arg_config = ''ChipyardDefault'', arg_level = ''L1'', arg_block = [],
      prompt_out = [''out'', ''prompt.txt''], image_out = [''out'', ''image.png''],
      arg_model = ''gpt-image-1'', arg_size = ''1536x1024''\<rparr>"

definition example_prompt :: string where
  "example_prompt =
     build_prompt example_svg (extract_svg_labels example_svg 80) 0 0
       ''ChipyardDefault'' ''L1'' []"

lemmas extract_eval = extract_svg_labels_def match_text_element_def match_tag_def strip_def
  isspace_def lower_def

lemma long_name_neq:
  "length s < 256 \<Longrightarrow> s \<noteq> long_name"
  "length s < 256 \<Longrightarrow> long_name \<noteq> s"
  by (auto simp: long_name_def)

lemmas world_eval = example_world_def long_name_neq

lemmas io_eval = is_file_def read_text_ignore_def read_text_def read_bytes_def parent_def
  write_text_def write_bytes_def can_open_for_writing_def

section \<open>The matchers and their patterns\<close>

text \<open>
  What the two matchers compute, in terms of the patterns. \<open>match_tag\<close> succeeds on
  exactly the texts that start with \<open><\<close>, one character or more other than \<open>>\<close>,
  and \<open>>\<close>. \<open>match_text_element\<close> succeeds on exactly the texts that start with
  \<open><text\<close> in any case, characters other than \<open>>\<close>, \<open>>\<close>, any characters, and
  \<open></text>\<close> in any case; the group it returns is the shortest one, no \<open></text>\<close>
  starting inside it.
\<close>

lemma match_ci_iff:
  "match_ci p s = Some r \<longleftrightarrow>
     (\<exists>x. s = x @ r \<and> length x = length p \<and> map lower x = map lower p)"
proof (induction p s rule: match_ci.induct)
  case (1 s)
  show ?case by auto
next
  case (2 p ps)
  show ?case by auto
next
  case (3 p ps c cs)
  show ?case
  proof (cases "lower c = lower p")
    case False
    then show ?thesis by (auto simp: Cons_eq_append_conv)
  next
    case True
    have "(\<exists>x. c # cs = x @ r \<and> length x = length (p # ps) \<and> map lower x = map lower (p # ps))
          \<longleftrightarrow> (\<exists>y. cs = y @ r \<and> length y = length ps \<and> map lower y = map lower ps)"
      (is "?L \<longleftrightarrow> ?R")
    proof
      assume ?L
      then obtain x where x: "c # cs = x @ r" "length x = length (p # ps)"
        "map lower x = map lower (p # ps)" by blast
      then obtain y where "x = c # y" by (cases x) auto
      with x show ?R by auto
    next
      assume ?R
      then obtain y where "cs = y @ r" "length y = length ps" "map lower y = map lower ps"
        by blast
      with True have "c # cs = (c # y) @ r \<and> length (c # y) = length (p # ps)
          \<and> map lower (c # y) = map lower (p # ps)" by simp
      then show ?L by blast
    qed
    with True 3 show ?thesis by simp
  qed
qed

lemma lazy_until_shape:
  "lazy_until p s = Some (g, r) \<Longrightarrow>
     (\<exists>cl. s = g @ cl @ r \<and> length cl = length p \<and> map lower cl = map lower p)
     \<and> (\<forall>k<length g. match_ci p (drop k s) = None)"
proof (induction s arbitrary: g r)
  case Nil
  then show ?case by (auto split: option.splits simp: match_ci_iff)
next
  case (Cons c cs)
  show ?case
  proof (cases "match_ci p (c # cs)")
    case (Some r')
    with Cons.prems have "g = []" "r' = r" by auto
    with Some show ?thesis by (auto simp: match_ci_iff)
  next
    case None
    with Cons.prems obtain g' where l: "lazy_until p cs = Some (g', r)" and g: "g = c # g'"
      by (auto split: option.splits)
    from Cons.IH [OF l] obtain cl where cl: "cs = g' @ cl @ r" "length cl = length p"
      "map lower cl = map lower p" and mn: "\<forall>k<length g'. match_ci p (drop k cs) = None"
      by blast
    have "\<forall>k<length g. match_ci p (drop k (c # cs)) = None"
    proof (intro allI impI)
      fix k assume "k < length g"
      with g mn None show "match_ci p (drop k (c # cs)) = None" by (cases k) auto
    qed
    with cl g show ?thesis by auto
  qed
qed

lemma lazy_until_None:
  "lazy_until p s = None \<Longrightarrow> match_ci p (drop k s) = None"
proof (induction s arbitrary: k)
  case Nil
  then show ?case by (auto split: option.splits)
next
  case (Cons c cs)
  then show ?case by (cases k) (auto split: option.splits)
qed

lemma match_tag_iff:
  "match_tag s = Some r \<longleftrightarrow>
     (\<exists>body. s = CHR ''<'' # body @ CHR ''>'' # r \<and> body \<noteq> [] \<and> CHR ''>'' \<notin> set body)"
proof
  assume "match_tag s = Some r"
  then obtain d ds x where s: "s = CHR ''<'' # d # ds" "d \<noteq> CHR ''>''"
    and r: "dropWhile (\<lambda>c. c \<noteq> CHR ''>'') ds = x # r"
    by (auto simp: match_tag_def split: list.splits if_splits)
  from r have x: "x = CHR ''>''" using hd_dropWhile [of "\<lambda>c. c \<noteq> CHR ''>''" ds] by auto
  have "ds = takeWhile (\<lambda>c. c \<noteq> CHR ''>'') ds @ dropWhile (\<lambda>c. c \<noteq> CHR ''>'') ds" by simp
  with r x have ds: "ds = takeWhile (\<lambda>c. c \<noteq> CHR ''>'') ds @ CHR ''>'' # r" by simp
  have "CHR ''>'' \<notin> set (takeWhile (\<lambda>c. c \<noteq> CHR ''>'') ds)"
    by (auto dest: set_takeWhileD)
  with s ds have "s = CHR ''<'' # (d # takeWhile (\<lambda>c. c \<noteq> CHR ''>'') ds) @ CHR ''>'' # r
      \<and> d # takeWhile (\<lambda>c. c \<noteq> CHR ''>'') ds \<noteq> []
      \<and> CHR ''>'' \<notin> set (d # takeWhile (\<lambda>c. c \<noteq> CHR ''>'') ds)" by auto
  then show "\<exists>body. s = CHR ''<'' # body @ CHR ''>'' # r \<and> body \<noteq> [] \<and> CHR ''>'' \<notin> set body"
    by blast
next
  assume "\<exists>body. s = CHR ''<'' # body @ CHR ''>'' # r \<and> body \<noteq> [] \<and> CHR ''>'' \<notin> set body"
  then obtain body where b: "s = CHR ''<'' # body @ CHR ''>'' # r" "body \<noteq> []"
    "CHR ''>'' \<notin> set body" by blast
  then obtain d ds where body: "body = d # ds" by (cases body) auto
  with b have "dropWhile (\<lambda>c. c \<noteq> CHR ''>'') (ds @ CHR ''>'' # r) = CHR ''>'' # r"
    by (subst dropWhile_append3) auto
  with b body show "match_tag s = Some r" by (auto simp: match_tag_def)
qed

lemma match_text_element_shape:
  "match_text_element s = Some (g, r) \<Longrightarrow>
     (\<exists>opn attrs cl. s = opn @ attrs @ CHR ''>'' # g @ cl @ r
        \<and> map lower opn = ''<text'' \<and> CHR ''>'' \<notin> set attrs
        \<and> map lower cl = ''</text>''
        \<and> (\<forall>k<length g. match_ci ''</text>'' (drop k (g @ cl @ r)) = None))"
proof -
  assume a: "match_text_element s = Some (g, r)"
  then obtain r1 where r1: "match_ci ''<text'' s = Some r1"
    by (auto simp: match_text_element_def split: option.splits)
  with a obtain x r2 where r2: "dropWhile (\<lambda>c. c \<noteq> CHR ''>'') r1 = x # r2"
    and l: "lazy_until ''</text>'' r2 = Some (g, r)"
    by (auto simp: match_text_element_def split: list.splits)
  from r1 obtain opn where opn: "s = opn @ r1" "map lower opn = map lower ''<text''"
    by (auto simp: match_ci_iff)
  have lt: "map lower ''<text'' = ''<text''" "map lower ''</text>'' = ''</text>''"
    by (simp_all add: lower_def)
  from r2 have x: "x = CHR ''>''" using hd_dropWhile [of "\<lambda>c. c \<noteq> CHR ''>''" r1] by auto
  have "r1 = takeWhile (\<lambda>c. c \<noteq> CHR ''>'') r1 @ dropWhile (\<lambda>c. c \<noteq> CHR ''>'') r1" by simp
  with r2 x have r1': "r1 = takeWhile (\<lambda>c. c \<noteq> CHR ''>'') r1 @ CHR ''>'' # r2" by simp
  have na: "CHR ''>'' \<notin> set (takeWhile (\<lambda>c. c \<noteq> CHR ''>'') r1)"
    by (auto dest: set_takeWhileD)
  from lazy_until_shape [OF l] obtain cl where cl: "r2 = g @ cl @ r"
    "map lower cl = map lower ''</text>''"
    and mn: "\<forall>k<length g. match_ci ''</text>'' (drop k r2) = None" by blast
  from opn r1' cl have "s = opn @ takeWhile (\<lambda>c. c \<noteq> CHR ''>'') r1 @ CHR ''>'' # g @ cl @ r"
    by simp
  with opn(2) na cl(1,2) mn lt show ?thesis by metis
qed

lemma match_text_element_complete:
  assumes "s = opn @ attrs @ CHR ''>'' # g @ cl @ r"
    and "map lower opn = ''<text''" and "CHR ''>'' \<notin> set attrs"
    and "map lower cl = ''</text>''"
  shows "match_text_element s \<noteq> None"
proof
  assume none: "match_text_element s = None"
  have lt: "map lower ''<text'' = ''<text''" "map lower ''</text>'' = ''</text>''"
    by (simp_all add: lower_def)
  from assms(2) have lo: "length opn = length ''<text''" by (metis length_map)
  from assms(4) have lc: "length cl = length ''</text>''" by (metis length_map)
  have m1: "match_ci ''<text'' s = Some (attrs @ CHR ''>'' # g @ cl @ r)"
    unfolding match_ci_iff using assms(1,2) lo lt by auto
  have dw: "dropWhile (\<lambda>c. c \<noteq> CHR ''>'') (attrs @ CHR ''>'' # g @ cl @ r)
              = CHR ''>'' # g @ cl @ r"
    using assms(3) by (subst dropWhile_append3) auto
  from none m1 dw have "lazy_until ''</text>'' (g @ cl @ r) = None"
    by (simp add: match_text_element_def)
  then have "match_ci ''</text>'' (drop (length g) (g @ cl @ r)) = None"
    by (rule lazy_until_None)
  moreover have "match_ci ''</text>'' (cl @ r) = Some r"
    unfolding match_ci_iff using assms(4) lc lt by auto
  ultimately show False by simp
qed

section \<open>Label extraction\<close>

lemma all_labels_Nil [simp]: "all_labels [] = []"
  by (simp add: all_labels_def)

lemma all_labels_Cons:
  "all_labels (g # gs) =
     (if strip (strip_tags g) = [] then all_labels gs
      else strip (strip_tags g) # all_labels gs)"
  by (simp add: all_labels_def)

text \<open>
  The loop appends before it compares the length with the cap, so it stops after
  \<open>max 1 (max_labels - length labels)\<close> further labels.
\<close>

lemma extract_loop_take:
  "extract_loop m gs acc =
     (if all_labels gs = [] then acc
      else acc @ take (nat (max 1 (m - int (length acc)))) (all_labels gs))"
proof (induction gs arbitrary: acc)
  case Nil
  show ?case by simp
next
  case (Cons g gs)
  show ?case
  proof (cases "strip (strip_tags g) = []")
    case True
    then show ?thesis by (simp add: Cons.IH all_labels_Cons)
  next
    case False
    show ?thesis
    proof (cases "m \<le> int (length acc) + 1")
      case True
      then have "nat (max 1 (m - int (length acc))) = 1" by simp
      with False True show ?thesis by (simp add: all_labels_Cons Let_def)
    next
      case no: False
      then obtain k where k: "nat (max 1 (m - int (length acc))) = Suc k"
        and k': "nat (max 1 (m - int (length (acc @ [strip (strip_tags g)])))) = k"
        by (cases "nat (max 1 (m - int (length acc)))")
           (auto simp: nat_eq_iff max_def split: if_splits)
      from no False show ?thesis
        apply (simp add: all_labels_Cons Let_def Cons.IH)
        using k k' by simp
    qed
  qed
qed

lemma extract_svg_labels_take:
  "extract_svg_labels s m = take (nat (max 1 m)) (all_labels (finditer_text s))"
  by (simp add: extract_svg_labels_def extract_loop_take)

lemma strip_prefix_of_dropWhile: "\<exists>zs. dropWhile isspace s = strip s @ zs"
proof -
  let ?u = "dropWhile isspace s"
  have "rev (dropWhile isspace (rev ?u)) @ rev (takeWhile isspace (rev ?u))
          = rev (takeWhile isspace (rev ?u) @ dropWhile isspace (rev ?u))"
    by (simp only: rev_append)
  also have "\<dots> = rev (rev ?u)" by (simp only: takeWhile_dropWhile_id)
  also have "\<dots> = ?u" by (simp only: rev_rev_ident)
  finally have "?u = strip s @ rev (takeWhile isspace (rev ?u))"
    by (simp only: strip_def)
  then show ?thesis by blast
qed

lemma strip_hd: "strip s \<noteq> [] \<Longrightarrow> \<not> isspace (hd (strip s))"
proof -
  assume ne: "strip s \<noteq> []"
  obtain zs where z: "dropWhile isspace s = strip s @ zs"
    using strip_prefix_of_dropWhile by blast
  with ne have "hd (dropWhile isspace s) = hd (strip s)" by simp
  moreover from z ne have "dropWhile isspace s \<noteq> []" by auto
  ultimately show ?thesis using hd_dropWhile [of isspace s] by simp
qed

lemma strip_idem: "strip (strip s) = strip s"
proof (cases "strip s = []")
  case True
  have "strip [] = []" by (simp add: strip_def)
  with True show ?thesis by simp
next
  case False
  then have d: "dropWhile isspace (strip s) = strip s"
    using strip_hd [of s] by (cases "strip s") auto
  have "rev (strip s) = dropWhile isspace (rev (dropWhile isspace s))"
    by (simp only: strip_def rev_rev_ident)
  then have "dropWhile isspace (rev (strip s)) = rev (strip s)"
    by (simp only: dropWhile_idem)
  then have "rev (dropWhile isspace (rev (strip s))) = strip s"
    by (simp only: rev_rev_ident)
  with d show ?thesis
    by (simp only: strip_def [of "strip s"])
qed

lemma match_tag_append:
  "match_tag xs = Some r \<Longrightarrow> match_tag (xs @ ys) = Some (r @ ys)"
proof -
  assume a: "match_tag xs = Some r"
  then obtain d ds x where s: "xs = CHR ''<'' # d # ds" "d \<noteq> CHR ''>''"
    and r: "dropWhile (\<lambda>c. c \<noteq> CHR ''>'') ds = x # r"
    by (auto simp: match_tag_def split: list.splits if_splits)
  from r have "dropWhile (\<lambda>c. c \<noteq> CHR ''>'') (ds @ ys) = (x # r) @ ys"
    by (metis dropWhile_append1 dropWhile_eq_Nil_conv list.distinct(1))
  with s show ?thesis by (simp add: match_tag_def)
qed

lemma contains_tag_append: "contains_tag xs \<Longrightarrow> contains_tag (xs @ ys)"
proof (induction xs)
  case Nil
  then show ?case by simp
next
  case (Cons c cs)
  then show ?case using match_tag_append [of "c # cs" _ ys] by auto
qed

lemma contains_tag_suffix: "contains_tag ys \<Longrightarrow> contains_tag (xs @ ys)"
  by (induction xs) auto

lemma contains_tag_strip: "contains_tag (strip s) \<Longrightarrow> contains_tag s"
proof -
  assume a: "contains_tag (strip s)"
  obtain zs where z: "dropWhile isspace s = strip s @ zs"
    using strip_prefix_of_dropWhile by blast
  from a have "contains_tag (strip s @ zs)" by (rule contains_tag_append)
  with z have "contains_tag (dropWhile isspace s)" by simp
  then have "contains_tag (takeWhile isspace s @ dropWhile isspace s)"
    by (rule contains_tag_suffix)
  then show ?thesis by simp
qed

lemma strip_tags_set: "set (strip_tags s) \<subseteq> set s"
proof (induction s rule: strip_tags.induct)
  case 1
  show ?case by simp
next
  case (2 c cs)
  show ?case
  proof (cases "match_tag (c # cs)")
    case None
    with 2(1) [OF None] show ?thesis by auto
  next
    case (Some r)
    then obtain d ds x where s: "c # cs = CHR ''<'' # d # ds"
      and r: "dropWhile (\<lambda>c. c \<noteq> CHR ''>'') ds = x # r"
      by (auto simp: match_tag_def split: list.splits if_splits)
    have "set (dropWhile (\<lambda>c. c \<noteq> CHR ''>'') ds) \<subseteq> set ds"
      by (rule set_dropWhileD [THEN subsetI])
    with r have "set r \<subseteq> set ds" by auto
    with s have "set r \<subseteq> set (c # cs)" by auto
    with 2(2) [OF Some] Some show ?thesis by auto
  qed
qed

text \<open>
  A \<open><\<close> that the substitution leaves in place is followed at once by \<open>>\<close>, or by no
  \<open>>\<close> at all; what the substitution returns keeps that, so no tag can form in it.
\<close>

lemma match_tag_strip_tags_None:
  "match_tag (c # cs) = None \<Longrightarrow> match_tag (c # strip_tags cs) = None"
proof (cases "c = CHR ''<''")
  case False
  then show ?thesis by (simp add: match_tag_def)
next
  case True
  assume n: "match_tag (c # cs) = None"
  show ?thesis
  proof (cases cs)
    case Nil
    with True show ?thesis by (simp add: match_tag_def)
  next
    case (Cons d ds)
    show ?thesis
    proof (cases "d = CHR ''>''")
      case True
      then have "match_tag cs = None" using Cons by (simp add: match_tag_def)
      with Cons True have "strip_tags cs = d # strip_tags ds" by simp
      with True \<open>c = CHR ''<''\<close> show ?thesis by (simp add: match_tag_def)
    next
      case False
      with n True Cons have "dropWhile (\<lambda>c. c \<noteq> CHR ''>'') ds = []"
        by (auto simp: match_tag_def split: list.splits)
      then have "CHR ''>'' \<notin> set ds" by (auto simp: dropWhile_eq_Nil_conv)
      with False Cons have "CHR ''>'' \<notin> set cs" by simp
      with strip_tags_set [of cs] have no: "CHR ''>'' \<notin> set (strip_tags cs)" by auto
      show ?thesis
      proof (cases "strip_tags cs")
        case Nil
        then show ?thesis by (simp add: match_tag_def)
      next
        case (Cons e es)
        with no have e: "e \<noteq> CHR ''>''"
          and es: "dropWhile (\<lambda>c. c \<noteq> CHR ''>'') es = []"
          by (auto simp: dropWhile_eq_Nil_conv)
        have "match_tag (c # e # es) = None"
          unfolding match_tag_def by (simp add: e es del: dropWhile_eq_Nil_conv)
        with Cons show ?thesis by simp
      qed
    qed
  qed
qed

lemma strip_tags_no_tag: "\<not> contains_tag (strip_tags s)"
proof (induction s rule: strip_tags.induct)
  case 1
  show ?case by simp
next
  case (2 c cs)
  show ?case
  proof (cases "match_tag (c # cs)")
    case None
    with 2(1) [OF None] match_tag_strip_tags_None [OF None] show ?thesis by simp
  next
    case (Some r)
    with 2(2) [OF Some] show ?thesis by simp
  qed
qed

lemma all_labels_props:
  "l \<in> set (all_labels gs) \<Longrightarrow> l \<noteq> [] \<and> strip l = l \<and> \<not> contains_tag l"
  using strip_tags_no_tag contains_tag_strip
  by (auto simp: all_labels_def strip_idem)

text \<open>
  What holds of \<open>extract_svg_labels\<close> at every cap: each entry is trimmed, not empty and
  free of tags, and there are at most \<open>max 1 max_labels\<close> of them; so the cap is kept
  whenever it is at least 1.
\<close>

lemma extract_svg_labels_entries:
  "l \<in> set (extract_svg_labels s m) \<Longrightarrow> strip l \<noteq> [] \<and> strip l = l \<and> \<not> contains_tag l"
proof -
  assume "l \<in> set (extract_svg_labels s m)"
  then have "l \<in> set (all_labels (finditer_text s))"
    unfolding extract_svg_labels_take by (rule in_set_takeD)
  then show ?thesis using all_labels_props by auto
qed

lemma extract_svg_labels_length:
  "length (extract_svg_labels s m) \<le> nat (max 1 m)"
  by (simp add: extract_svg_labels_take)

lemma extract_svg_labels_bounded:
  "1 \<le> m \<Longrightarrow> int (length (extract_svg_labels s m)) \<le> m"
  using extract_svg_labels_length [of s m] by simp

text \<open>
  C2. For every source text and every cap, \<open>extract_svg_labels\<close> returns at most
  \<open>max_labels\<close> entries. The code does not keep this at the cap 0: the loop appends the
  first label before it compares the length with the cap, so with one text element in the
  source and the cap 0 it returns one entry.
\<close>

theorem extract_svg_labels_cap_zero:
  "extract_svg_labels ''<text>A</text>'' 0 = [''A'']
   \<and> int (length (extract_svg_labels ''<text>A</text>'' 0)) > 0"
  by (simp add: extract_svg_labels_def match_text_element_def match_tag_def strip_def
        isspace_def lower_def)

text \<open>
  C10. Raising the cap only appends labels: for caps \<open>m1 \<le> m2\<close>, what
  \<open>extract_svg_labels\<close> returns at \<open>m1\<close> is a prefix of what it returns at \<open>m2\<close>.
\<close>

theorem extract_svg_labels_cap_monotone:
  "m1 \<le> m2 \<Longrightarrow> prefix (extract_svg_labels s m1) (extract_svg_labels s m2)"
proof -
  assume le: "m1 \<le> m2"
  let ?L = "all_labels (finditer_text s)"
  from le have "min (nat (max 1 m1)) (nat (max 1 m2)) = nat (max 1 m1)" by simp
  then have "take (nat (max 1 m1)) ?L = take (nat (max 1 m1)) (take (nat (max 1 m2)) ?L)"
    by (simp only: take_take)
  then have "prefix (take (nat (max 1 m1)) ?L) (take (nat (max 1 m2)) ?L)"
    by (metis take_is_prefix)
  then show ?thesis by (simp only: extract_svg_labels_take)
qed

theorem extract_svg_labels_cap_monotone_witness:
  "(1::int) \<le> 2
   \<and> prefix (extract_svg_labels ''<text>A</text><text>B</text>'' 1)
            (extract_svg_labels ''<text>A</text><text>B</text>'' 2)"
  using extract_svg_labels_cap_monotone [of 1 2 "''<text>A</text><text>B</text>''"]
  by simp

section \<open>Layout statistics\<close>

text \<open>
  C1. \<open>read_layout_stats\<close> returns a pair of counts and never raises, whatever the path
  and the content of the file. The code does not keep this for a file whose content is
  JSON but not an object (a list, a number, a string, \<open>null\<close>): \<open>json.loads\<close>
  returns, so the \<open>except\<close> clause is not entered, and \<open>payload.get\<close> raises
  \<open>AttributeError\<close>.
\<close>

theorem read_layout_stats_non_mapping:
  "is_file w p = Inr True \<Longrightarrow> read_text lib w p = Inr s \<Longrightarrow> json_loads lib s = Some v \<Longrightarrow>
   \<not> is_dict v \<Longrightarrow> read_layout_stats lib w (Some p) = Inl AttributeError"
  by (cases v) (simp_all add: read_layout_stats_def is_dict_def)

theorem read_layout_stats_non_mapping_witness:
  "is_file example_world [''list.json''] = Inr True
   \<and> read_text example_lib example_world [''list.json''] = Inr list_doc
   \<and> json_loads example_lib list_doc = Some (JArray [JInt 1, JInt 2])
   \<and> \<not> is_dict (JArray [JInt 1, JInt 2])
   \<and> read_layout_stats example_lib example_world (Some [''list.json'']) = Inl AttributeError"
proof -
  have f: "is_file example_world [''list.json''] = Inr True"
    by (simp add: is_file_def world_eval)
  have r: "read_text example_lib example_world [''list.json''] = Inr list_doc"
    by (simp add: read_text_def read_bytes_def world_eval example_lib_def)
  have j: "json_loads example_lib list_doc = Some (JArray [JInt 1, JInt 2])"
    by (simp add: example_lib_def example_loads_def list_doc_def layout_doc_def partial_doc_def)
  have d: "\<not> is_dict (JArray [JInt 1, JInt 2])"
    by (simp add: is_dict_def)
  from f r j d read_layout_stats_non_mapping [OF f r j d] show ?thesis by simp
qed

text \<open>
  C3. \<open>read_layout_stats\<close> returns \<open>(0, 0)\<close> when no path is given, when the path
  refers to no readable file, and when the content of the file does not parse; for
  content that parses to a mapping it returns the lengths of the fields. The code does
  not keep this for a path that the system refuses to look up (a file in a directory
  without search permission, a name that is too long): \<open>layout_path.is_file()\<close> stands
  before the \<open>try\<close> block and raises the error of \<open>stat\<close> again, so the function
  raises instead of returning \<open>(0, 0)\<close>.
\<close>

theorem read_layout_stats_stat_error:
  "is_file w p = Inl e \<Longrightarrow> read_layout_stats lib w (Some p) = Inl e"
  by (simp add: read_layout_stats_def)

theorem read_layout_stats_stat_error_witness:
  "is_file example_world [''sealed'', ''layout.json''] = Inl OSError
   \<and> read_layout_stats example_lib example_world (Some [''sealed'', ''layout.json''])
       = Inl OSError
   \<and> fs example_world [long_name] = None
   \<and> is_file example_world [long_name] = Inl OSError
   \<and> read_layout_stats example_lib example_world (Some [long_name]) = Inl OSError"
proof -
  have s: "is_file example_world [''sealed'', ''layout.json''] = Inl OSError"
    by (simp add: is_file_def example_world_def)
  have l: "is_file example_world [long_name] = Inl OSError"
    by (simp add: is_file_def example_world_def)
  have n: "fs example_world [long_name] = None"
    by (simp add: world_eval)
  from s l n
    read_layout_stats_stat_error [OF s, of example_lib]
    read_layout_stats_stat_error [OF l, of example_lib]
  show ?thesis by simp
qed

text \<open>These two are the only ways for \<open>read_layout_stats\<close> to raise.\<close>

lemma read_layout_stats_raises_iff:
  "read_layout_stats lib w lp = Inl e \<longleftrightarrow>
     (\<exists>p. lp = Some p
        \<and> (is_file w p = Inl e
            \<or> (e = AttributeError \<and> is_file w p = Inr True
                \<and> (\<exists>s v. read_text lib w p = Inr s \<and> json_loads lib s = Some v
                           \<and> \<not> is_dict v))))"
  by (auto simp: read_layout_stats_def is_dict_def Let_def
           split: option.splits if_splits sum.splits json.splits)

text \<open>
  Where \<open>is_file\<close> returns, the function does what C3 says: \<open>(0, 0)\<close> when the path is
  not a file, when the file cannot be read, and when its content does not parse; when
  the content parses to a mapping, for \<open>nodes\<close> and for \<open>edges\<close> the length of the
  field if the field is present and a list, and 0 otherwise; so \<open>nodes: [a, b, c]\<close>,
  \<open>edges: [x, y]\<close> gives \<open>(3, 2)\<close>.
\<close>

lemma read_layout_stats_counts:
  "read_layout_stats lib w None = Inr (0, 0)
   \<and> (is_file w p = Inr False \<longrightarrow> read_layout_stats lib w (Some p) = Inr (0, 0))
   \<and> (is_file w p = Inr True \<and> read_text lib w p = Inl e
        \<longrightarrow> read_layout_stats lib w (Some p) = Inr (0, 0))
   \<and> (is_file w p = Inr True \<and> read_text lib w p = Inr s \<and> json_loads lib s = None
        \<longrightarrow> read_layout_stats lib w (Some p) = Inr (0, 0))
   \<and> (is_file w p = Inr True \<and> read_text lib w p = Inr s
        \<and> json_loads lib s = Some (JObject d)
        \<longrightarrow> read_layout_stats lib w (Some p)
              = Inr (field_count d ''nodes'', field_count d ''edges''))
   \<and> (is_file w p = Inr True \<and> read_text lib w p = Inr s
        \<and> json_loads lib s = Some (JObject [(''nodes'', JArray [n1, n2, n3]),
                                              (''edges'', JArray [e1, e2])])
        \<longrightarrow> read_layout_stats lib w (Some p) = Inr (3, 2))"
  by (auto simp: read_layout_stats_def field_count_def dict_get_def len_if_list_def Let_def
           split: option.splits json.splits)

lemma read_layout_stats_counts_examples:
  "read_layout_stats example_lib example_world None = Inr (0, 0)
   \<and> is_file example_world [''absent.json''] = Inr False
   \<and> read_layout_stats example_lib example_world (Some [''absent.json'']) = Inr (0, 0)
   \<and> is_file example_world [''secret.json''] = Inr True
   \<and> read_text example_lib example_world [''secret.json''] = Inl OSError
   \<and> read_layout_stats example_lib example_world (Some [''secret.json'']) = Inr (0, 0)
   \<and> is_file example_world [''broken.json''] = Inr True
   \<and> read_text example_lib example_world [''broken.json''] = Inr broken_doc
   \<and> json_loads example_lib broken_doc = None
   \<and> read_layout_stats example_lib example_world (Some [''broken.json'']) = Inr (0, 0)
   \<and> is_file example_world [''partial.json''] = Inr True
   \<and> read_text example_lib example_world [''partial.json''] = Inr partial_doc
   \<and> json_loads example_lib partial_doc = Some (JObject [(''nodes'', JInt 7)])
   \<and> read_layout_stats example_lib example_world (Some [''partial.json'']) = Inr (0, 0)
   \<and> is_file example_world [''layout.json''] = Inr True
   \<and> read_text example_lib example_world [''layout.json''] = Inr layout_doc
   \<and> json_loads example_lib layout_doc
       = Some (JObject [(''nodes'', JArray [JString ''a'', JString ''b'', JString ''c'']),
                        (''edges'', JArray [JString ''x'', JString ''y''])])
   \<and> read_layout_stats example_lib example_world (Some [''layout.json'']) = Inr (3, 2)"
proof -
  note ev = is_file_def read_text_def read_bytes_def world_eval example_lib_def
    example_loads_def layout_doc_def partial_doc_def broken_doc_def list_doc_def
  have a: "is_file example_world [''absent.json''] = Inr False" by (simp add: ev)
  have s1: "is_file example_world [''secret.json''] = Inr True" by (simp add: ev)
  have s2: "read_text example_lib example_world [''secret.json''] = Inl OSError"
    by (simp add: ev)
  have b1: "is_file example_world [''broken.json''] = Inr True" by (simp add: ev)
  have b2: "read_text example_lib example_world [''broken.json''] = Inr broken_doc"
    by (simp add: ev)
  have b3: "json_loads example_lib broken_doc = None" by (simp add: ev)
  have p1: "is_file example_world [''partial.json''] = Inr True" by (simp add: ev)
  have p2: "read_text example_lib example_world [''partial.json''] = Inr partial_doc"
    by (simp add: ev)
  have p3: "json_loads example_lib partial_doc = Some (JObject [(''nodes'', JInt 7)])"
    by (simp add: ev)
  have l1: "is_file example_world [''layout.json''] = Inr True" by (simp add: ev)
  have l2: "read_text example_lib example_world [''layout.json''] = Inr layout_doc"
    by (simp add: ev)
  have l3: "json_loads example_lib layout_doc
       = Some (JObject [(''nodes'', JArray [JString ''a'', JString ''b'', JString ''c'']),
                        (''edges'', JArray [JString ''x'', JString ''y''])])"
    by (simp add: ev)
  have fc: "field_count [(''nodes'', JInt 7)] ''nodes'' = 0"
    "field_count [(''nodes'', JInt 7)] ''edges'' = 0"
    by (simp_all add: field_count_def)
  from a s1 s2 b1 b2 b3 p1 p2 p3 l1 l2 l3 fc
    read_layout_stats_counts [of example_lib example_world "[''absent.json'']"]
    read_layout_stats_counts [of example_lib example_world "[''secret.json'']" OSError]
    read_layout_stats_counts [of example_lib example_world "[''broken.json'']" _
       broken_doc]
    read_layout_stats_counts [of example_lib example_world "[''partial.json'']" _
       partial_doc "[(''nodes'', JInt 7)]"]
    read_layout_stats_counts [of example_lib example_world "[''layout.json'']" _
       layout_doc _
       "JString ''a''" "JString ''b''" "JString ''c''" "JString ''x''" "JString ''y''"]
  show ?thesis by simp
qed

section \<open>Prompt text\<close>

lemma lines_of_not_Nil: "lines_of s \<noteq> []"
  by (induction s) (auto split: list.splits)

lemma lines_of_single: "newline \<notin> set l \<Longrightarrow> lines_of l = [l]"
  by (induction l) auto

lemma lines_of_append:
  "newline \<notin> set l \<Longrightarrow> lines_of (l @ newline # rest) = l # lines_of rest"
  by (induction l) auto

lemma lines_of_join_lines:
  "ls \<noteq> [] \<Longrightarrow> \<forall>l\<in>set ls. newline \<notin> set l \<Longrightarrow> lines_of (join_lines ls) = ls"
  by (induction ls rule: join_lines.induct) (auto simp: lines_of_single lines_of_append)

lemma lines_of_append_newline:
  "lines_of (xs @ newline # ys) = lines_of xs @ lines_of ys"
proof (induction xs)
  case Nil
  show ?case by simp
next
  case (Cons c cs)
  then show ?case using lines_of_not_Nil [of cs]
    by (cases "lines_of cs") auto
qed

lemma lines_of_join_lines_concat:
  "ls \<noteq> [] \<Longrightarrow> lines_of (join_lines ls) = concat (map lines_of ls)"
  by (induction ls rule: join_lines.induct) (simp_all add: lines_of_append_newline)

lemma prompt_lines_snoc:
  "prompt_lines svg_text labels node_count edge_count config level block =
     emitted_lines svg_text labels node_count edge_count config level block @ [take 18000 svg_text]"
  by (simp add: emitted_lines_def prompt_lines_def butlast_append)

lemma join_lines_snoc: "ls \<noteq> [] \<Longrightarrow> join_lines (ls @ [l]) = join_lines ls @ newline # l"
  by (induction ls rule: join_lines.induct) auto

lemma join_lines_append:
  "xs \<noteq> [] \<Longrightarrow> ys \<noteq> [] \<Longrightarrow> join_lines (xs @ ys) = join_lines xs @ newline # join_lines ys"
  by (induction xs rule: join_lines.induct) (auto, (cases ys; simp)+)

lemma emitted_lines_not_Nil: "emitted_lines s ls n e c l b \<noteq> []"
  by (simp add: emitted_lines_def prompt_lines_def butlast_append)

lemma emitted_lines_eq:
  "emitted_lines svg_text labels node_count edge_count config level block =
     [''Create a polished hardware architecture block diagram image.'',
      ''Use the supplied SVG as structural ground truth.'',
      ''Preserve block names and connectivity intent.'',
      [],
      ''Context:'']
     @ (if config \<noteq> [] then [''- CONFIG: '' @ config] else [])
     @ (if level \<noteq> [] then [''- LEVEL: '' @ level] else [])
     @ (if block \<noteq> [] then [''- BLOCK: '' @ block] else [])
     @ (if node_count > 0
        then [''- Approximate block count from layout JSON: '' @ str_int node_count] else [])
     @ (if edge_count > 0
        then [''- Approximate edge count from layout JSON: '' @ str_int edge_count] else [])
     @ (if labels \<noteq> []
        then ''- Labels discovered in source SVG:'' # map (\<lambda>label. ''  - '' @ label) labels
        else [])
     @ [[],
        ''Style constraints:'',
        ''- clean professional engineering style'',
        ''- white background'',
        ''- crisp readable labels'',
        ''- clear directional arrows'',
        ''- balanced spacing'',
        ''- no cartoon style'',
        ''- no code snippets'',
        ''- no electrical schematic symbols'',
        [],
        ''Output requirements:'',
        ''- Keep exact visible module names where possible.'',
        ''- Preserve high-level topology from the source SVG.'',
        ''- Improve visual clarity and slide-readability.'',
        [],
        ''Source SVG (for structure reference):'']"
  by (simp add: emitted_lines_def prompt_lines_def butlast_append)

lemma list_ex_label_lines:
  "\<not> list_ex (prefix (CHR ''-'' # p)) (map (\<lambda>label. ''  - '' @ label) labels)"
  by (induction labels) auto

lemma lines_of_build_prompt:
  "\<forall>l\<in>set (prompt_lines s ls n e c l b). newline \<notin> set l \<Longrightarrow>
     lines_of (build_prompt s ls n e c l b) = prompt_lines s ls n e c l b"
  unfolding build_prompt_def
  by (rule lines_of_join_lines) (simp_all add: prompt_lines_snoc)

lemma line_of_entry:
  "l \<in> set (prompt_lines s ls n e c lv b) \<Longrightarrow> x \<in> set (lines_of l) \<Longrightarrow>
     x \<in> set (lines_of (build_prompt s ls n e c lv b))"
proof -
  assume a: "l \<in> set (prompt_lines s ls n e c lv b)" "x \<in> set (lines_of l)"
  have "prompt_lines s ls n e c lv b \<noteq> []" by (simp add: prompt_lines_snoc)
  then have "lines_of (build_prompt s ls n e c lv b)
               = concat (map lines_of (prompt_lines s ls n e c lv b))"
    unfolding build_prompt_def by (rule lines_of_join_lines_concat)
  with a show ?thesis by auto
qed

lemma entry_is_line:
  "l \<in> set (emitted_lines s ls n e c lv b) \<Longrightarrow> newline \<notin> set l \<Longrightarrow>
     l \<in> set (lines_of (build_prompt s ls n e c lv b))"
proof -
  assume a: "l \<in> set (emitted_lines s ls n e c lv b)" and n: "newline \<notin> set l"
  from a have "l \<in> set (prompt_lines s ls n e c lv b)" by (simp add: prompt_lines_snoc)
  moreover from n have "l \<in> set (lines_of l)" by (simp add: lines_of_single)
  ultimately show ?thesis by (rule line_of_entry)
qed

lemma str_nat_digits: "set (str_nat n) \<subseteq> set ''0123456789''"
proof (induction n rule: str_nat.induct)
  case (1 n)
  have d: "\<And>k. k < 10 \<Longrightarrow> digit_char k \<in> set ''0123456789''"
    unfolding digit_char_def by (rule nth_mem) simp
  show ?case
  proof (cases "n < 10")
    case True
    with d [of n] show ?thesis by (subst str_nat.simps) simp
  next
    case False
    with "1.IH" d [of "n mod 10"] show ?thesis by (subst str_nat.simps) simp
  qed
qed

lemma str_int_no_newline: "newline \<notin> set (str_int i)"
  using str_nat_digits [of "nat i"] str_nat_digits [of "nat (- i)"]
  by (auto simp: str_int_def newline_def)

text \<open>
  Among the entries \<open>build_prompt\<close> appends to \<open>lines\<close> before the source excerpt, the
  \<open>CONFIG\<close>, \<open>LEVEL\<close> and \<open>BLOCK\<close> entries are present if and only if the argument
  is not empty, the block-count and edge-count entries if and only if the count is
  positive, and the labels header if and only if there is a label; the fifth entry is
  always \<open>Context:\<close>.
\<close>

lemma emitted_lines_context:
  "prefix (purpose_and_context_header @ [newline])
          (build_prompt svg_text labels node_count edge_count config level block)
   \<and> emitted_lines svg_text labels node_count edge_count config level block ! 4 = ''Context:''
   \<and> ((''- CONFIG: '' @ config
         \<in> set (emitted_lines svg_text labels node_count edge_count config level block))
        = (config \<noteq> []))
   \<and> (list_ex (prefix ''- CONFIG: '')
         (emitted_lines svg_text labels node_count edge_count config level block)
        = (config \<noteq> []))
   \<and> ((''- LEVEL: '' @ level
         \<in> set (emitted_lines svg_text labels node_count edge_count config level block))
        = (level \<noteq> []))
   \<and> (list_ex (prefix ''- LEVEL: '')
         (emitted_lines svg_text labels node_count edge_count config level block)
        = (level \<noteq> []))
   \<and> ((''- BLOCK: '' @ block
         \<in> set (emitted_lines svg_text labels node_count edge_count config level block))
        = (block \<noteq> []))
   \<and> (list_ex (prefix ''- BLOCK: '')
         (emitted_lines svg_text labels node_count edge_count config level block)
        = (block \<noteq> []))
   \<and> ((''- Approximate block count from layout JSON: '' @ str_int node_count
         \<in> set (emitted_lines svg_text labels node_count edge_count config level block))
        = (node_count > 0))
   \<and> (list_ex (prefix ''- Approximate block count from layout JSON: '')
         (emitted_lines svg_text labels node_count edge_count config level block)
        = (node_count > 0))
   \<and> ((''- Approximate edge count from layout JSON: '' @ str_int edge_count
         \<in> set (emitted_lines svg_text labels node_count edge_count config level block))
        = (edge_count > 0))
   \<and> (list_ex (prefix ''- Approximate edge count from layout JSON: '')
         (emitted_lines svg_text labels node_count edge_count config level block)
        = (edge_count > 0))
   \<and> ((''- Labels discovered in source SVG:''
         \<in> set (emitted_lines svg_text labels node_count edge_count config level block))
        = (labels \<noteq> []))
   \<and> ''Context:'' \<in> set (lines_of (build_prompt svg_text labels node_count edge_count config level block))
   \<and> (config \<noteq> [] \<and> newline \<notin> set config \<longrightarrow>
        ''- CONFIG: '' @ config \<in> set (lines_of (build_prompt svg_text labels node_count edge_count config level block)))
   \<and> (level \<noteq> [] \<and> newline \<notin> set level \<longrightarrow>
        ''- LEVEL: '' @ level \<in> set (lines_of (build_prompt svg_text labels node_count edge_count config level block)))
   \<and> (block \<noteq> [] \<and> newline \<notin> set block \<longrightarrow>
        ''- BLOCK: '' @ block \<in> set (lines_of (build_prompt svg_text labels node_count edge_count config level block)))
   \<and> (node_count > 0 \<longrightarrow>
        ''- Approximate block count from layout JSON: '' @ str_int node_count
          \<in> set (lines_of (build_prompt svg_text labels node_count edge_count config level block)))
   \<and> (edge_count > 0 \<longrightarrow>
        ''- Approximate edge count from layout JSON: '' @ str_int edge_count
          \<in> set (lines_of (build_prompt svg_text labels node_count edge_count config level block)))
   \<and> (labels \<noteq> [] \<longrightarrow>
        ''- Labels discovered in source SVG:'' \<in> set (lines_of (build_prompt svg_text labels node_count edge_count config level block)))"
proof -
  let ?E = "emitted_lines svg_text labels node_count edge_count config level block"
  let ?rest = "tl (tl (tl (tl (tl (prompt_lines svg_text labels node_count edge_count config level block)))))"
  have split: "prompt_lines svg_text labels node_count edge_count config level block =
      [''Create a polished hardware architecture block diagram image.'',
       ''Use the supplied SVG as structural ground truth.'',
       ''Preserve block names and connectivity intent.'',
       [],
       ''Context:''] @ ?rest"
    by (simp add: prompt_lines_def)
  have rest: "?rest \<noteq> []" by (simp add: prompt_lines_def)
  have "build_prompt svg_text labels node_count edge_count config level block
          = purpose_and_context_header @ newline # join_lines ?rest"
    unfolding build_prompt_def purpose_and_context_header_def
    by (subst split, rule join_lines_append) (simp_all add: rest)
  then have c0: "prefix (purpose_and_context_header @ [newline])
          (build_prompt svg_text labels node_count edge_count config level block)"
    by (simp add: prefix_def)
  have c1: "?E ! 4 = ''Context:''" by (simp add: emitted_lines_eq)
  have c2: "(''- CONFIG: '' @ config \<in> set ?E) = (config \<noteq> [])"
    by (simp add: emitted_lines_eq image_iff)
  have c3: "list_ex (prefix ''- CONFIG: '') ?E = (config \<noteq> [])"
    by (simp add: emitted_lines_eq list_ex_label_lines)
  have c4: "(''- LEVEL: '' @ level \<in> set ?E) = (level \<noteq> [])"
    by (simp add: emitted_lines_eq image_iff)
  have c5: "list_ex (prefix ''- LEVEL: '') ?E = (level \<noteq> [])"
    by (simp add: emitted_lines_eq list_ex_label_lines)
  have c6: "(''- BLOCK: '' @ block \<in> set ?E) = (block \<noteq> [])"
    by (simp add: emitted_lines_eq image_iff)
  have c7: "list_ex (prefix ''- BLOCK: '') ?E = (block \<noteq> [])"
    by (simp add: emitted_lines_eq list_ex_label_lines)
  have c8: "(''- Approximate block count from layout JSON: '' @ str_int node_count \<in> set ?E)
              = (node_count > 0)"
    by (simp add: emitted_lines_eq image_iff)
  have c9: "list_ex (prefix ''- Approximate block count from layout JSON: '') ?E
              = (node_count > 0)"
    by (simp add: emitted_lines_eq list_ex_label_lines)
  have c10: "(''- Approximate edge count from layout JSON: '' @ str_int edge_count \<in> set ?E)
              = (edge_count > 0)"
    by (simp add: emitted_lines_eq image_iff)
  have c11: "list_ex (prefix ''- Approximate edge count from layout JSON: '') ?E
              = (edge_count > 0)"
    by (simp add: emitted_lines_eq list_ex_label_lines)
  have c12: "(''- Labels discovered in source SVG:'' \<in> set ?E) = (labels \<noteq> [])"
    by (simp add: emitted_lines_eq image_iff)
  note line = entry_is_line [of _ svg_text labels node_count edge_count config level block]
  have o0: "''Context:'' \<in> set (lines_of (build_prompt svg_text labels node_count edge_count config level block))"
    by (rule line) (simp_all add: emitted_lines_eq newline_def)
  have o1: "config \<noteq> [] \<and> newline \<notin> set config \<longrightarrow>
        ''- CONFIG: '' @ config \<in> set (lines_of (build_prompt svg_text labels node_count edge_count config level block))"
    using c2 by (auto intro!: line simp: newline_def)
  have o2: "level \<noteq> [] \<and> newline \<notin> set level \<longrightarrow>
        ''- LEVEL: '' @ level \<in> set (lines_of (build_prompt svg_text labels node_count edge_count config level block))"
    using c4 by (auto intro!: line simp: newline_def)
  have o3: "block \<noteq> [] \<and> newline \<notin> set block \<longrightarrow>
        ''- BLOCK: '' @ block \<in> set (lines_of (build_prompt svg_text labels node_count edge_count config level block))"
    using c6 by (auto intro!: line simp: newline_def)
  have o4: "node_count > 0 \<longrightarrow>
        ''- Approximate block count from layout JSON: '' @ str_int node_count
          \<in> set (lines_of (build_prompt svg_text labels node_count edge_count config level block))"
    using c8 str_int_no_newline [of node_count] by (auto intro!: line simp: newline_def)
  have o5: "edge_count > 0 \<longrightarrow>
        ''- Approximate edge count from layout JSON: '' @ str_int edge_count
          \<in> set (lines_of (build_prompt svg_text labels node_count edge_count config level block))"
    using c10 str_int_no_newline [of edge_count] by (auto intro!: line simp: newline_def)
  have o6: "labels \<noteq> [] \<longrightarrow>
        ''- Labels discovered in source SVG:'' \<in> set (lines_of (build_prompt svg_text labels node_count edge_count config level block))"
    using c12 by (auto intro!: line simp: newline_def)
  from c0 c1 c2 c3 c4 c5 c6 c7 c8 c9 c10 c11 c12 o0 o1 o2 o3 o4 o5 o6 show ?thesis by blast
qed


lemma build_prompt_split:
  "build_prompt s ls n e c lv b =
     join_lines (emitted_lines s ls n e c lv b) @ newline # take 18000 s"
  unfolding build_prompt_def prompt_lines_snoc
  by (rule join_lines_snoc) (rule emitted_lines_not_Nil)

lemma prompt_head_lines_join:
  "prompt_head_lines s ls n e c lv b = lines_of (join_lines (emitted_lines s ls n e c lv b))"
  by (simp add: prompt_head_lines_def lines_before_excerpt_def build_prompt_split)

lemma prompt_head_lines_concat:
  "prompt_head_lines s ls n e c lv b = concat (map lines_of (emitted_lines s ls n e c lv b))"
  unfolding prompt_head_lines_join
  by (rule lines_of_join_lines_concat) (rule emitted_lines_not_Nil)

text \<open>
  When no argument holds a line break, the lines of the prompt before the excerpt are the
  entries themselves.
\<close>

lemma prompt_head_lines_entries:
  assumes "no_line_break c" and "no_line_break lv" and "no_line_break b"
    and "list_all no_line_break ls"
  shows "prompt_head_lines s ls n e c lv b = emitted_lines s ls n e c lv b"
proof -
  have "\<forall>l\<in>set (emitted_lines s ls n e c lv b). newline \<notin> set l"
    using assms str_int_no_newline [of n] str_int_no_newline [of e]
    by (auto simp: emitted_lines_eq no_line_break_def list_all_iff newline_def)
  with emitted_lines_not_Nil [of s ls n e c lv b] show ?thesis
    unfolding prompt_head_lines_join by (intro lines_of_join_lines)
qed

lemma head_line_of_entry:
  "l \<in> set (emitted_lines s ls n e c lv b) \<Longrightarrow> x \<in> set (lines_of l) \<Longrightarrow>
     x \<in> set (prompt_head_lines s ls n e c lv b)"
  by (auto simp: prompt_head_lines_concat)

lemma prefix_hd_lines_of: "newline \<notin> set p \<Longrightarrow> prefix p (hd (lines_of (p @ x)))"
proof (induction p)
  case Nil
  show ?case by simp
next
  case (Cons a p)
  then show ?case using lines_of_not_Nil [of "p @ x"]
    by (cases "lines_of (p @ x)") auto
qed

lemma head_line_with_prefix:
  assumes "p @ x \<in> set (emitted_lines s ls n e c lv b)" and "newline \<notin> set p"
  shows "list_ex (prefix p) (prompt_head_lines s ls n e c lv b)"
proof -
  have "hd (lines_of (p @ x)) \<in> set (lines_of (p @ x))"
    using lines_of_not_Nil [of "p @ x"] by simp
  with assms(1) have "hd (lines_of (p @ x)) \<in> set (prompt_head_lines s ls n e c lv b)"
    by (rule head_line_of_entry)
  moreover from assms(2) have "prefix p (hd (lines_of (p @ x)))" by (rule prefix_hd_lines_of)
  ultimately show ?thesis unfolding list_ex_iff by blast
qed

lemma head_line_entry:
  assumes "l \<in> set (emitted_lines s ls n e c lv b)" and "newline \<notin> set l"
  shows "l \<in> set (prompt_head_lines s ls n e c lv b)"
proof -
  from assms(2) have "l \<in> set (lines_of l)" by (simp add: lines_of_single)
  with assms(1) show ?thesis by (rule head_line_of_entry)
qed

lemma prompt_head_lines_start:
  "take 5 (prompt_head_lines s ls n e c lv b) =
     [''Create a polished hardware architecture block diagram image.'',
      ''Use the supplied SVG as structural ground truth.'',
      ''Preserve block names and connectivity intent.'',
      [],
      ''Context:'']"
proof -
  let ?F = "[''Create a polished hardware architecture block diagram image.'',
      ''Use the supplied SVG as structural ground truth.'',
      ''Preserve block names and connectivity intent.'',
      [],
      ''Context:'']"
  let ?R = "drop 5 (emitted_lines s ls n e c lv b)"
  have E: "emitted_lines s ls n e c lv b = ?F @ ?R" by (simp add: emitted_lines_eq)
  have F: "concat (map lines_of ?F) = ?F" by (simp add: newline_def)
  have "prompt_head_lines s ls n e c lv b = ?F @ concat (map lines_of ?R)"
    unfolding prompt_head_lines_concat by (subst E) (simp only: map_append concat_append F)
  then show ?thesis by simp
qed

text \<open>
  C4, as the code has it. In every prompt the lines before the source excerpt start with
  the purpose lines, an empty line and the line \<open>Context:\<close>, also when no line follows
  in the section; a \<open>CONFIG\<close>, \<open>LEVEL\<close> or \<open>BLOCK\<close> line is among them when the argument
  is not empty, a block-count or edge-count line when the count is positive, and the
  labels header when there is a label. When the configuration, the level, the block and
  the labels hold no line break, each of these lines is among the lines before the source
  excerpt if and only if its argument is not empty, its count is positive, or there is a
  label.
\<close>

theorem build_prompt_context_lines:
  "prefix (purpose_and_context_header @ [newline])
          (build_prompt svg_text labels node_count edge_count config level block)
   \<and> prompt_head_lines svg_text labels node_count edge_count config level block ! 4
       = ''Context:''
   \<and> (config \<noteq> [] \<longrightarrow>
        list_ex (prefix ''- CONFIG: '')
          (prompt_head_lines svg_text labels node_count edge_count config level block))
   \<and> (level \<noteq> [] \<longrightarrow>
        list_ex (prefix ''- LEVEL: '')
          (prompt_head_lines svg_text labels node_count edge_count config level block))
   \<and> (block \<noteq> [] \<longrightarrow>
        list_ex (prefix ''- BLOCK: '')
          (prompt_head_lines svg_text labels node_count edge_count config level block))
   \<and> (node_count > 0 \<longrightarrow>
        ''- Approximate block count from layout JSON: '' @ str_int node_count
          \<in> set (prompt_head_lines svg_text labels node_count edge_count config level block))
   \<and> (edge_count > 0 \<longrightarrow>
        ''- Approximate edge count from layout JSON: '' @ str_int edge_count
          \<in> set (prompt_head_lines svg_text labels node_count edge_count config level block))
   \<and> (labels \<noteq> [] \<longrightarrow>
        ''- Labels discovered in source SVG:''
          \<in> set (prompt_head_lines svg_text labels node_count edge_count config level block))
   \<and> (no_line_break config \<and> no_line_break level \<and> no_line_break block
        \<and> list_all no_line_break labels \<longrightarrow>
          (list_ex (prefix ''- CONFIG: '')
             (prompt_head_lines svg_text labels node_count edge_count config level block)
           = (config \<noteq> []))
        \<and> ((''- CONFIG: '' @ config
              \<in> set (prompt_head_lines svg_text labels node_count edge_count config level block))
           = (config \<noteq> []))
        \<and> (list_ex (prefix ''- LEVEL: '')
             (prompt_head_lines svg_text labels node_count edge_count config level block)
           = (level \<noteq> []))
        \<and> ((''- LEVEL: '' @ level
              \<in> set (prompt_head_lines svg_text labels node_count edge_count config level block))
           = (level \<noteq> []))
        \<and> (list_ex (prefix ''- BLOCK: '')
             (prompt_head_lines svg_text labels node_count edge_count config level block)
           = (block \<noteq> []))
        \<and> ((''- BLOCK: '' @ block
              \<in> set (prompt_head_lines svg_text labels node_count edge_count config level block))
           = (block \<noteq> []))
        \<and> (list_ex (prefix ''- Approximate block count from layout JSON: '')
             (prompt_head_lines svg_text labels node_count edge_count config level block)
           = (node_count > 0))
        \<and> ((''- Approximate block count from layout JSON: '' @ str_int node_count
              \<in> set (prompt_head_lines svg_text labels node_count edge_count config level block))
           = (node_count > 0))
        \<and> (list_ex (prefix ''- Approximate edge count from layout JSON: '')
             (prompt_head_lines svg_text labels node_count edge_count config level block)
           = (edge_count > 0))
        \<and> ((''- Approximate edge count from layout JSON: '' @ str_int edge_count
              \<in> set (prompt_head_lines svg_text labels node_count edge_count config level block))
           = (edge_count > 0))
        \<and> ((''- Labels discovered in source SVG:''
              \<in> set (prompt_head_lines svg_text labels node_count edge_count config level block))
           = (labels \<noteq> [])))"
proof -
  let ?E = "emitted_lines svg_text labels node_count edge_count config level block"
  let ?H = "prompt_head_lines svg_text labels node_count edge_count config level block"
  note ent = emitted_lines_context
    [of svg_text labels node_count edge_count config level block]
  have a0: "prefix (purpose_and_context_header @ [newline])
          (build_prompt svg_text labels node_count edge_count config level block)"
    using ent by blast
  have "?H ! 4 = take 5 ?H ! 4" by simp
  also have "\<dots> = ''Context:''" unfolding prompt_head_lines_start by simp
  finally have a1: "?H ! 4 = ''Context:''" .
  have a2: "config \<noteq> [] \<longrightarrow> list_ex (prefix ''- CONFIG: '') ?H"
  proof
    assume "config \<noteq> []"
    with ent have "''- CONFIG: '' @ config \<in> set ?E" by blast
    then show "list_ex (prefix ''- CONFIG: '') ?H"
      by (rule head_line_with_prefix) (simp add: newline_def)
  qed
  have a3: "level \<noteq> [] \<longrightarrow> list_ex (prefix ''- LEVEL: '') ?H"
  proof
    assume "level \<noteq> []"
    with ent have "''- LEVEL: '' @ level \<in> set ?E" by blast
    then show "list_ex (prefix ''- LEVEL: '') ?H"
      by (rule head_line_with_prefix) (simp add: newline_def)
  qed
  have a4: "block \<noteq> [] \<longrightarrow> list_ex (prefix ''- BLOCK: '') ?H"
  proof
    assume "block \<noteq> []"
    with ent have "''- BLOCK: '' @ block \<in> set ?E" by blast
    then show "list_ex (prefix ''- BLOCK: '') ?H"
      by (rule head_line_with_prefix) (simp add: newline_def)
  qed
  have a5: "node_count > 0 \<longrightarrow>
        ''- Approximate block count from layout JSON: '' @ str_int node_count \<in> set ?H"
  proof
    assume "node_count > 0"
    with ent have "''- Approximate block count from layout JSON: '' @ str_int node_count
        \<in> set ?E" by blast
    then show "''- Approximate block count from layout JSON: '' @ str_int node_count \<in> set ?H"
      using str_int_no_newline [of node_count]
      by (intro head_line_entry) (auto simp: newline_def)
  qed
  have a6: "edge_count > 0 \<longrightarrow>
        ''- Approximate edge count from layout JSON: '' @ str_int edge_count \<in> set ?H"
  proof
    assume "edge_count > 0"
    with ent have "''- Approximate edge count from layout JSON: '' @ str_int edge_count
        \<in> set ?E" by blast
    then show "''- Approximate edge count from layout JSON: '' @ str_int edge_count \<in> set ?H"
      using str_int_no_newline [of edge_count]
      by (intro head_line_entry) (auto simp: newline_def)
  qed
  have a7: "labels \<noteq> [] \<longrightarrow> ''- Labels discovered in source SVG:'' \<in> set ?H"
  proof
    assume "labels \<noteq> []"
    with ent have "''- Labels discovered in source SVG:'' \<in> set ?E" by blast
    then show "''- Labels discovered in source SVG:'' \<in> set ?H"
      by (intro head_line_entry) (auto simp: newline_def)
  qed
  have b: "no_line_break config \<and> no_line_break level \<and> no_line_break block
        \<and> list_all no_line_break labels \<longrightarrow> ?H = ?E"
    using prompt_head_lines_entries by blast
  from ent have e: "list_ex (prefix ''- CONFIG: '') ?E = (config \<noteq> [])"
    "(''- CONFIG: '' @ config \<in> set ?E) = (config \<noteq> [])"
    "list_ex (prefix ''- LEVEL: '') ?E = (level \<noteq> [])"
    "(''- LEVEL: '' @ level \<in> set ?E) = (level \<noteq> [])"
    "list_ex (prefix ''- BLOCK: '') ?E = (block \<noteq> [])"
    "(''- BLOCK: '' @ block \<in> set ?E) = (block \<noteq> [])"
    "list_ex (prefix ''- Approximate block count from layout JSON: '') ?E = (node_count > 0)"
    "(''- Approximate block count from layout JSON: '' @ str_int node_count \<in> set ?E)
       = (node_count > 0)"
    "list_ex (prefix ''- Approximate edge count from layout JSON: '') ?E = (edge_count > 0)"
    "(''- Approximate edge count from layout JSON: '' @ str_int edge_count \<in> set ?E)
       = (edge_count > 0)"
    "(''- Labels discovered in source SVG:'' \<in> set ?E) = (labels \<noteq> [])"
    by blast+
  have c: "no_line_break config \<and> no_line_break level \<and> no_line_break block
        \<and> list_all no_line_break labels \<longrightarrow>
          (list_ex (prefix ''- CONFIG: '') ?H = (config \<noteq> []))
        \<and> ((''- CONFIG: '' @ config \<in> set ?H) = (config \<noteq> []))
        \<and> (list_ex (prefix ''- LEVEL: '') ?H = (level \<noteq> []))
        \<and> ((''- LEVEL: '' @ level \<in> set ?H) = (level \<noteq> []))
        \<and> (list_ex (prefix ''- BLOCK: '') ?H = (block \<noteq> []))
        \<and> ((''- BLOCK: '' @ block \<in> set ?H) = (block \<noteq> []))
        \<and> (list_ex (prefix ''- Approximate block count from layout JSON: '') ?H
             = (node_count > 0))
        \<and> ((''- Approximate block count from layout JSON: '' @ str_int node_count \<in> set ?H)
             = (node_count > 0))
        \<and> (list_ex (prefix ''- Approximate edge count from layout JSON: '') ?H
             = (edge_count > 0))
        \<and> ((''- Approximate edge count from layout JSON: '' @ str_int edge_count \<in> set ?H)
             = (edge_count > 0))
        \<and> ((''- Labels discovered in source SVG:'' \<in> set ?H) = (labels \<noteq> []))"
  proof
    assume "no_line_break config \<and> no_line_break level \<and> no_line_break block
        \<and> list_all no_line_break labels"
    with b have "?H = ?E" by blast
    with e show "(list_ex (prefix ''- CONFIG: '') ?H = (config \<noteq> []))
        \<and> ((''- CONFIG: '' @ config \<in> set ?H) = (config \<noteq> []))
        \<and> (list_ex (prefix ''- LEVEL: '') ?H = (level \<noteq> []))
        \<and> ((''- LEVEL: '' @ level \<in> set ?H) = (level \<noteq> []))
        \<and> (list_ex (prefix ''- BLOCK: '') ?H = (block \<noteq> []))
        \<and> ((''- BLOCK: '' @ block \<in> set ?H) = (block \<noteq> []))
        \<and> (list_ex (prefix ''- Approximate block count from layout JSON: '') ?H
             = (node_count > 0))
        \<and> ((''- Approximate block count from layout JSON: '' @ str_int node_count \<in> set ?H)
             = (node_count > 0))
        \<and> (list_ex (prefix ''- Approximate edge count from layout JSON: '') ?H
             = (edge_count > 0))
        \<and> ((''- Approximate edge count from layout JSON: '' @ str_int edge_count \<in> set ?H)
             = (edge_count > 0))
        \<and> ((''- Labels discovered in source SVG:'' \<in> set ?H) = (labels \<noteq> []))"
      by simp
  qed
  from a0 a1 a2 a3 a4 a5 a6 a7 c show ?thesis by blast
qed

theorem build_prompt_context_lines_witness:
  "no_line_break ''ChipyardDefault'' \<and> no_line_break [] \<and> no_line_break ''tile''
   \<and> list_all no_line_break [''CPU'', ''Memory'']
   \<and> prompt_head_lines example_svg [''CPU'', ''Memory''] 3 0 ''ChipyardDefault'' [] ''tile'' ! 4
       = ''Context:''
   \<and> ''- CONFIG: ChipyardDefault''
       \<in> set (prompt_head_lines example_svg [''CPU'', ''Memory''] 3 0 ''ChipyardDefault'' [] ''tile'')
   \<and> \<not> list_ex (prefix ''- LEVEL: '')
         (prompt_head_lines example_svg [''CPU'', ''Memory''] 3 0 ''ChipyardDefault'' [] ''tile'')
   \<and> ''- BLOCK: tile''
       \<in> set (prompt_head_lines example_svg [''CPU'', ''Memory''] 3 0 ''ChipyardDefault'' [] ''tile'')
   \<and> ''- Approximate block count from layout JSON: 3''
       \<in> set (prompt_head_lines example_svg [''CPU'', ''Memory''] 3 0 ''ChipyardDefault'' [] ''tile'')
   \<and> \<not> list_ex (prefix ''- Approximate edge count from layout JSON: '')
         (prompt_head_lines example_svg [''CPU'', ''Memory''] 3 0 ''ChipyardDefault'' [] ''tile'')
   \<and> ''- Labels discovered in source SVG:''
       \<in> set (prompt_head_lines example_svg [''CPU'', ''Memory''] 3 0 ''ChipyardDefault'' [] ''tile'')"
proof -
  have n: "no_line_break ''ChipyardDefault''" "no_line_break []" "no_line_break ''tile''"
    "list_all no_line_break [''CPU'', ''Memory'']"
    by (simp_all add: no_line_break_def newline_def)
  have s: "str_int 3 = ''3''"
    by (simp add: str_int_def str_nat.simps digit_char_def)
  from n s build_prompt_context_lines
         [of example_svg "[''CPU'', ''Memory'']" 3 0 "''ChipyardDefault''" "[]" "''tile''"]
  show ?thesis by simp
qed

text \<open>
  Without these conditions the "only if" half fails, because every argument is embedded
  as it is. A label with a line break in it puts a line of its own into the context
  section: the label below is what \<open>extract_svg_labels\<close> returns for a text element that
  spans two lines, and the prompt then has a line \<open>- CONFIG: x\<close> although the argument
  \<open>config\<close> is empty. A source text can hold such a line as well, and it then stands in
  the excerpt at the end of the prompt.
\<close>

theorem build_prompt_foreign_config_line:
  "extract_svg_labels ''<text>a\<newline>- CONFIG: x</text>'' 80 = [''a\<newline>- CONFIG: x'']
   \<and> \<not> (list_ex (prefix ''- CONFIG: '')
            (lines_of (build_prompt ''<text>a\<newline>- CONFIG: x</text>''
                         [''a\<newline>- CONFIG: x''] 0 0 [] [] []))
          = (([]::string) \<noteq> []))
   \<and> \<not> (list_ex (prefix ''- CONFIG: '')
            (prompt_head_lines ''<text>a\<newline>- CONFIG: x</text>''
                         [''a\<newline>- CONFIG: x''] 0 0 [] [] [])
          = (([]::string) \<noteq> []))
   \<and> \<not> (list_ex (prefix ''- CONFIG: '')
            (lines_of (build_prompt ''- CONFIG: x'' [] 0 0 [] [] []))
          = (([]::string) \<noteq> []))"
proof -
  have "extract_svg_labels ''<text>a\<newline>- CONFIG: x</text>'' 80 = [''a\<newline>- CONFIG: x'']"
    by (simp add: extract_eval)
  moreover have m: "''  - a\<newline>- CONFIG: x''
      \<in> set (prompt_lines ''<text>a\<newline>- CONFIG: x</text>''
                [''a\<newline>- CONFIG: x''] 0 0 [] [] [])"
    by (simp add: prompt_lines_def)
  then have "''- CONFIG: x''
      \<in> set (lines_of (build_prompt ''<text>a\<newline>- CONFIG: x</text>''
                         [''a\<newline>- CONFIG: x''] 0 0 [] [] []))"
    by (rule line_of_entry) (simp add: newline_def)
  then have "list_ex (prefix ''- CONFIG: '')
            (lines_of (build_prompt ''<text>a\<newline>- CONFIG: x</text>''
                         [''a\<newline>- CONFIG: x''] 0 0 [] [] []))"
    unfolding list_ex_iff by (rule bexI [rotated]) simp
  moreover have "''  - a\<newline>- CONFIG: x''
      \<in> set (emitted_lines ''<text>a\<newline>- CONFIG: x</text>''
                [''a\<newline>- CONFIG: x''] 0 0 [] [] [])"
    by (simp add: emitted_lines_eq)
  then have "''- CONFIG: x''
      \<in> set (prompt_head_lines ''<text>a\<newline>- CONFIG: x</text>''
                         [''a\<newline>- CONFIG: x''] 0 0 [] [] [])"
    by (rule head_line_of_entry) (simp add: newline_def)
  then have "list_ex (prefix ''- CONFIG: '')
            (prompt_head_lines ''<text>a\<newline>- CONFIG: x</text>''
                         [''a\<newline>- CONFIG: x''] 0 0 [] [] [])"
    unfolding list_ex_iff by (rule bexI [rotated]) simp
  moreover have "''- CONFIG: x'' \<in> set (prompt_lines ''- CONFIG: x'' [] 0 0 [] [] [])"
    by (simp add: prompt_lines_def)
  then have "''- CONFIG: x'' \<in> set (lines_of (build_prompt ''- CONFIG: x'' [] 0 0 [] [] []))"
    by (rule line_of_entry) (simp add: newline_def)
  then have "list_ex (prefix ''- CONFIG: '')
            (lines_of (build_prompt ''- CONFIG: x'' [] 0 0 [] [] []))"
    unfolding list_ex_iff by (rule bexI [rotated]) simp
  ultimately show ?thesis by simp
qed

text \<open>
  C5. The source excerpt at the end of the prompt, the last entry of \<open>lines\<close>, is a
  prefix of the source text and at most 18000 characters long; the prompt is the entries
  before it, joined, then a line break, then the excerpt.
\<close>

theorem build_prompt_source_excerpt:
  "build_prompt svg_text labels node_count edge_count config level block =
     join_lines (emitted_lines svg_text labels node_count edge_count config level block)
       @ newline # last (prompt_lines svg_text labels node_count edge_count config level block)
   \<and> last (emitted_lines svg_text labels node_count edge_count config level block)
       = ''Source SVG (for structure reference):''
   \<and> last (prompt_lines svg_text labels node_count edge_count config level block)
       = take 18000 svg_text
   \<and> prefix (last (prompt_lines svg_text labels node_count edge_count config level block)) svg_text
   \<and> length (last (prompt_lines svg_text labels node_count edge_count config level block)) \<le> 18000"
proof -
  have l: "last (prompt_lines svg_text labels node_count edge_count config level block)
             = take 18000 svg_text"
    by (simp add: prompt_lines_snoc)
  have "build_prompt svg_text labels node_count edge_count config level block =
     join_lines (emitted_lines svg_text labels node_count edge_count config level block)
       @ newline # take 18000 svg_text"
    unfolding build_prompt_def prompt_lines_snoc
    by (rule join_lines_snoc) (rule emitted_lines_not_Nil)
  moreover have "last (emitted_lines svg_text labels node_count edge_count config level block)
       = ''Source SVG (for structure reference):''"
    by (simp add: emitted_lines_def prompt_lines_def butlast_append)
  moreover have "prefix (take 18000 svg_text) svg_text" by (rule take_is_prefix)
  ultimately show ?thesis by (simp add: l)
qed

text \<open>
  C7. The scenario of the specification: the source
  \<open><text>CPU</text><text>  </text><text>Memory</text>\<close>, no layout file, the
  configuration \<open>ChipyardDefault\<close>, the level \<open>L1\<close> and no block. The labels are
  \<open>CPU\<close> and \<open>Memory\<close> in that order, the counts are \<open>(0, 0)\<close>, and the prompt
  has the lines \<open>- CONFIG: ChipyardDefault\<close> and \<open>- LEVEL: L1\<close>, no \<open>BLOCK\<close>
  line, no count line, and the labels header followed by \<open>CPU\<close> and \<open>Memory\<close>.
\<close>

theorem scenario_cpu_memory:
  "extract_svg_labels example_svg 80 = [''CPU'', ''Memory'']
   \<and> read_layout_stats lib w None = Inr (0, 0)
   \<and> lines_of example_prompt =
       [''Create a polished hardware architecture block diagram image.'',
        ''Use the supplied SVG as structural ground truth.'',
        ''Preserve block names and connectivity intent.'',
        [],
        ''Context:'',
        ''- CONFIG: ChipyardDefault'',
        ''- LEVEL: L1'',
        ''- Labels discovered in source SVG:'',
        ''  - CPU'',
        ''  - Memory'',
        [],
        ''Style constraints:'',
        ''- clean professional engineering style'',
        ''- white background'',
        ''- crisp readable labels'',
        ''- clear directional arrows'',
        ''- balanced spacing'',
        ''- no cartoon style'',
        ''- no code snippets'',
        ''- no electrical schematic symbols'',
        [],
        ''Output requirements:'',
        ''- Keep exact visible module names where possible.'',
        ''- Preserve high-level topology from the source SVG.'',
        ''- Improve visual clarity and slide-readability.'',
        [],
        ''Source SVG (for structure reference):'',
        ''<text>CPU</text><text>  </text><text>Memory</text>'']
   \<and> ''- CONFIG: ChipyardDefault'' \<in> set (lines_of example_prompt)
   \<and> ''- LEVEL: L1'' \<in> set (lines_of example_prompt)
   \<and> \<not> list_ex (prefix ''- BLOCK'') (lines_of example_prompt)
   \<and> \<not> list_ex (prefix ''- Approximate block count'') (lines_of example_prompt)
   \<and> \<not> list_ex (prefix ''- Approximate edge count'') (lines_of example_prompt)
   \<and> take 3 (drop 7 (lines_of example_prompt))
       = [''- Labels discovered in source SVG:'', ''  - CPU'', ''  - Memory'']"
proof -
  have labels: "extract_svg_labels example_svg 80 = [''CPU'', ''Memory'']"
    by (simp add: example_svg_def extract_eval)
  have stats: "read_layout_stats lib w None = Inr (0, 0)"
    by (simp add: read_layout_stats_def)
  have pl: "prompt_lines example_svg [''CPU'', ''Memory''] 0 0 ''ChipyardDefault'' ''L1'' [] =
       [''Create a polished hardware architecture block diagram image.'',
        ''Use the supplied SVG as structural ground truth.'',
        ''Preserve block names and connectivity intent.'',
        [],
        ''Context:'',
        ''- CONFIG: ChipyardDefault'',
        ''- LEVEL: L1'',
        ''- Labels discovered in source SVG:'',
        ''  - CPU'',
        ''  - Memory'',
        [],
        ''Style constraints:'',
        ''- clean professional engineering style'',
        ''- white background'',
        ''- crisp readable labels'',
        ''- clear directional arrows'',
        ''- balanced spacing'',
        ''- no cartoon style'',
        ''- no code snippets'',
        ''- no electrical schematic symbols'',
        [],
        ''Output requirements:'',
        ''- Keep exact visible module names where possible.'',
        ''- Preserve high-level topology from the source SVG.'',
        ''- Improve visual clarity and slide-readability.'',
        [],
        ''Source SVG (for structure reference):'',
        ''<text>CPU</text><text>  </text><text>Memory</text>'']"
    by (simp add: prompt_lines_def example_svg_def)
  have "\<forall>l\<in>set (prompt_lines example_svg [''CPU'', ''Memory''] 0 0 ''ChipyardDefault'' ''L1'' []).
          newline \<notin> set l"
    unfolding pl by (simp add: newline_def)
  then have "lines_of (build_prompt example_svg [''CPU'', ''Memory''] 0 0
                 ''ChipyardDefault'' ''L1'' [])
        = prompt_lines example_svg [''CPU'', ''Memory''] 0 0 ''ChipyardDefault'' ''L1'' []"
    by (rule lines_of_build_prompt)
  then have lo: "lines_of example_prompt
        = prompt_lines example_svg [''CPU'', ''Memory''] 0 0 ''ChipyardDefault'' ''L1'' []"
    by (simp only: example_prompt_def labels)
  show ?thesis
    unfolding lo pl using labels stats by simp
qed

section \<open>Pipeline runs\<close>

lemma mkdir_parents_frame:
  "mkdir_parents w d = (r, w') \<Longrightarrow>
     w' = w\<lparr>fs := fs w'\<rparr> \<and> (\<forall>q. fs w' q = fs w q \<or> fs w' q = Some Directory)"
proof (induction w d arbitrary: r w' rule: mkdir_parents.induct)
  case (1 w d)
  show ?case
  proof (cases "d \<in> stat_error w")
    case True
    with "1.prems" show ?thesis
      by (subst (asm) mkdir_parents.simps) auto
  next
    case ok: False
  show ?thesis
  proof (cases "fs w d")
    case (Some n)
    with "1.prems" ok show ?thesis
      by (subst (asm) mkdir_parents.simps) (cases n; auto)
  next
    case None
    show ?thesis
    proof (cases "d = []")
      case True
      with None "1.prems" ok show ?thesis
        by (subst (asm) mkdir_parents.simps) auto
    next
      case False
      obtain r0 w0 where p: "mkdir_parents w (parent d) = (r0, w0)"
        by (cases "mkdir_parents w (parent d)")
      from "1.IH" [OF ok None False p]
      have ih: "w0 = w\<lparr>fs := fs w0\<rparr>" "\<forall>q. fs w0 q = fs w q \<or> fs w0 q = Some Directory"
        by auto
      from "1.prems" None False p ok
      have "w' = w0 \<or> w' = w0\<lparr>fs := (fs w0)(d \<mapsto> Directory)\<rparr>"
        by (subst (asm) mkdir_parents.simps) (auto split: option.splits if_splits)
      then show ?thesis
      proof
        assume "w' = w0"
        with ih show ?thesis by simp
      next
        assume w': "w' = w0\<lparr>fs := (fs w0)(d \<mapsto> Directory)\<rparr>"
        then have "w' = w\<lparr>fs := fs w'\<rparr>" using ih(1)
          by (metis world.surjective world.update_convs(1))
        moreover from w' ih(2) have "\<forall>q. fs w' q = fs w q \<or> fs w' q = Some Directory"
          by auto
        ultimately show ?thesis by simp
      qed
    qed
  qed
  qed
qed

lemma write_text_ok:
  "write_text lib w p s = (None, w') \<Longrightarrow>
     \<exists>b. encode lib s = Some b \<and> w' = w\<lparr>fs := (fs w)(p \<mapsto> Regular b)\<rparr>"
  by (auto simp: write_text_def split: if_splits option.splits)

lemma generate_image_no_key:
  "openai_installed w \<Longrightarrow>
   environ w ''OPENAI_API_KEY'' = None \<or> environ w ''OPENAI_API_KEY'' = Some [] \<Longrightarrow>
   generate_image lib prompt model sz w = (Inl (RuntimeError ''OPENAI_API_KEY is not set.''), w)"
  by (auto simp: generate_image_def)

lemma main_Return:
  "fst (main lib a w) = Return n \<Longrightarrow>
     (n = 2 \<and> is_file w (input_svg a) = Inr False)
     \<or> (n = 0 \<and> is_file w (input_svg a) = Inr True
         \<and> (\<exists>b. fs (snd (main lib a w)) (image_out a) = Some (Regular b)))"
  by (auto simp: main_def Let_def write_bytes_def layout_report_def
           split: if_splits sum.splits prod.splits option.splits)

lemma mkdir_parents_same:
  "mkdir_parents w d = (r, w') \<Longrightarrow>
     environ w' = environ w \<and> openai_installed w' = openai_installed w
     \<and> requests w' = requests w \<and> (\<forall>q. fs w' q = fs w q \<or> fs w' q = Some Directory)"
proof -
  assume "mkdir_parents w d = (r, w')"
  from mkdir_parents_frame [OF this]
  have eq: "w' = w\<lparr>fs := fs w'\<rparr>" and fr: "\<forall>q. fs w' q = fs w q \<or> fs w' q = Some Directory"
    by auto
  have "environ (w\<lparr>fs := fs w'\<rparr>) = environ w" 
    "openai_installed (w\<lparr>fs := fs w'\<rparr>) = openai_installed w"
    "requests (w\<lparr>fs := fs w'\<rparr>) = requests w" by simp_all
  with eq fr show ?thesis by metis
qed

lemma write_text_same:
  "write_text lib w p s = (r, w') \<Longrightarrow>
     environ w' = environ w \<and> openai_installed w' = openai_installed w
     \<and> requests w' = requests w \<and> (\<forall>q. q = p \<or> fs w' q = fs w q)"
  by (auto simp: write_text_def split: if_splits option.splits)

lemma generate_image_absent:
  "environ w ''OPENAI_API_KEY'' = None \<or> environ w ''OPENAI_API_KEY'' = Some [] \<Longrightarrow>
     \<exists>e. generate_image lib prompt model sz w = (Inl e, w)"
  by (auto simp: generate_image_def)

text \<open>
  With the credential absent (unset or empty) no run sends a request to the service or
  returns 0, and the only path that can come to hold a file it did not hold before is the
  prompt path, whatever happens in the steps before the generation client.
\<close>

lemma main_credential_absent_always:
  assumes key: "environ w ''OPENAI_API_KEY'' = None \<or> environ w ''OPENAI_API_KEY'' = Some []"
  shows "requests (snd (main lib a w)) = requests w
         \<and> fst (main lib a w) \<noteq> Return 0
         \<and> (\<forall>q. q = prompt_out a \<or> fs (snd (main lib a w)) q = fs w q
                  \<or> fs (snd (main lib a w)) q = Some Directory)"
proof (cases "is_file w (input_svg a)")
  case (Inl e)
  then show ?thesis by (simp add: main_def)
next
  case found: (Inr found)
  show ?thesis
  proof (cases found)
    case False
    with found show ?thesis by (simp add: main_def)
  next
    case True
    with found have isf: "is_file w (input_svg a) = Inr True" by simp
  show ?thesis
  proof (cases "read_text_ignore lib w (input_svg a)")
    case (Inl e)
    with isf show ?thesis by (simp add: main_def)
  next
    case (Inr svg_text)
    show ?thesis
    proof (cases "read_layout_stats lib w (layout_json a)")
      case (Inl e)
      with isf Inr show ?thesis by (simp add: main_def)
    next
      case stats: (Inr counts)
      obtain n e where counts: "counts = (n, e)" by (cases counts)
      let ?prompt = "build_prompt svg_text (extract_svg_labels svg_text 80) n e
                       (arg_config a) (arg_level a) (arg_block a)"
      obtain r1 w1 where d1: "mkdir_parents w (parent (prompt_out a)) = (r1, w1)"
        by (cases "mkdir_parents w (parent (prompt_out a))")
      note s1 = mkdir_parents_same [OF d1]
      show ?thesis
      proof (cases r1)
        case (Some e1)
        with isf Inr stats counts d1 s1 show ?thesis by (simp add: main_def)
      next
        case r1: None
        obtain r2 w2 where d2: "mkdir_parents w1 (parent (image_out a)) = (r2, w2)"
          by (cases "mkdir_parents w1 (parent (image_out a))")
        note s2 = mkdir_parents_same [OF d2]
        have fr2: "\<forall>q. fs w2 q = fs w q \<or> fs w2 q = Some Directory"
          using s1 s2 by metis
        show ?thesis
        proof (cases r2)
          case (Some e2)
          with isf Inr stats counts d1 r1 d2 s1 s2 fr2 show ?thesis by (simp add: main_def)
        next
          case r2: None
          obtain r3 w3 where wr: "write_text lib w2 (prompt_out a) ?prompt = (r3, w3)"
            by (cases "write_text lib w2 (prompt_out a) ?prompt")
          note s3 = write_text_same [OF wr]
          have fr3: "\<forall>q. q = prompt_out a \<or> fs w3 q = fs w q \<or> fs w3 q = Some Directory"
            using s3 fr2 by metis
          have rq3: "requests w3 = requests w" using s1 s2 s3 by simp
          show ?thesis
          proof (cases r3)
            case (Some e3)
            with isf Inr stats counts d1 r1 d2 r2 wr fr3 rq3 show ?thesis
              by (simp add: main_def)
          next
            case r3: None
            from key s1 s2 s3 have "environ w3 ''OPENAI_API_KEY'' = None
                \<or> environ w3 ''OPENAI_API_KEY'' = Some []" by simp
            from generate_image_absent [OF this]
            obtain e4 where "generate_image lib ?prompt (arg_model a) (arg_size a) w3
                = (Inl e4, w3)" by blast
            with isf Inr stats counts d1 r1 d2 r2 wr r3 fr3 rq3 show ?thesis
              by (simp add: main_def)
          qed
        qed
      qed
    qed
  qed
  qed
qed

text \<open>
  C8. A run that reaches the generation client, with the package importable and the
  credential absent (unset or empty), ends with the \<open>RuntimeError\<close> "OPENAI_API_KEY is
  not set." in the world the prompt write left: no request has been sent to the service,
  the prompt file holds the encoded prompt, and apart from it no path differs from the
  start except for directories created, so no image file has been written.
\<close>

theorem main_credential_absent:
  assumes svg: "read_text_ignore lib w (input_svg a) = Inr svg_text"
    and stats: "read_layout_stats lib w (layout_json a) = Inr (node_count, edge_count)"
    and prompt: "prompt = build_prompt svg_text (extract_svg_labels svg_text 80)
                   node_count edge_count (arg_config a) (arg_level a) (arg_block a)"
    and dir1: "mkdir_parents w (parent (prompt_out a)) = (None, w1)"
    and dir2: "mkdir_parents w1 (parent (image_out a)) = (None, w2)"
    and wr: "write_text lib w2 (prompt_out a) prompt = (None, w3)"
    and inst: "openai_installed w"
    and key: "environ w ''OPENAI_API_KEY'' = None \<or> environ w ''OPENAI_API_KEY'' = Some []"
  shows "main lib a w = (Raised (RuntimeError ''OPENAI_API_KEY is not set.''), w3)
         \<and> requests w3 = requests w
         \<and> (\<exists>b. encode lib prompt = Some b \<and> fs w3 (prompt_out a) = Some (Regular b))
         \<and> (\<forall>q. q = prompt_out a \<or> fs w3 q = fs w q \<or> fs w3 q = Some Directory)"
proof -
  from svg have isf: "is_file w (input_svg a) = Inr True"
    by (auto simp: read_text_ignore_def read_bytes_def is_file_def
             split: option.splits node.splits if_splits)
  from mkdir_parents_frame [OF dir1]
  have f1: "w1 = w\<lparr>fs := fs w1\<rparr>" "\<forall>q. fs w1 q = fs w q \<or> fs w1 q = Some Directory" by auto
  from mkdir_parents_frame [OF dir2]
  have f2: "w2 = w1\<lparr>fs := fs w2\<rparr>" "\<forall>q. fs w2 q = fs w1 q \<or> fs w2 q = Some Directory" by auto
  from write_text_ok [OF wr] obtain b where
    b: "encode lib prompt = Some b" and w3: "w3 = w2\<lparr>fs := (fs w2)(prompt_out a \<mapsto> Regular b)\<rparr>"
    by blast
  have same: "openai_installed w3 = openai_installed w" "environ w3 = environ w"
    "requests w3 = requests w"
    by (subst w3, subst f2(1), subst f1(1), simp)+
  with inst key have gen: "generate_image lib prompt (arg_model a) (arg_size a) w3
      = (Inl (RuntimeError ''OPENAI_API_KEY is not set.''), w3)"
    by (intro generate_image_no_key) auto
  have m: "main lib a w = (Raised (RuntimeError ''OPENAI_API_KEY is not set.''), w3)"
    using isf svg stats dir1 dir2 wr gen
    by (simp add: main_def prompt [symmetric])
  have frame: "\<forall>q. q = prompt_out a \<or> fs w3 q = fs w q \<or> fs w3 q = Some Directory"
  proof
    fix q
    from f1(2) f2(2) have "fs w2 q = fs w q \<or> fs w2 q = Some Directory" by metis
    then show "q = prompt_out a \<or> fs w3 q = fs w q \<or> fs w3 q = Some Directory"
      by (auto simp: w3)
  qed
  from b w3 have "fs w3 (prompt_out a) = Some (Regular b)" by simp
  with m same(3) b frame show ?thesis by blast
qed

theorem main_credential_absent_witness:
  "read_text_ignore example_lib example_world (input_svg example_args) = Inr example_svg
   \<and> read_layout_stats example_lib example_world (layout_json example_args) = Inr (0, 0)
   \<and> openai_installed example_world
   \<and> environ example_world ''OPENAI_API_KEY'' = None
   \<and> fst (main example_lib example_args example_world)
       = Raised (RuntimeError ''OPENAI_API_KEY is not set.'')
   \<and> requests (snd (main example_lib example_args example_world)) = []
   \<and> fs (snd (main example_lib example_args example_world)) [''out'', ''prompt.txt'']
       = Some (Regular example_prompt)
   \<and> fs (snd (main example_lib example_args example_world)) [''out'', ''image.png''] = None"
proof -
  let ?w1 = "example_world\<lparr>fs := (fs example_world)([''out''] \<mapsto> Directory)\<rparr>"
  let ?w3 = "?w1\<lparr>fs := (fs ?w1)([''out'', ''prompt.txt''] \<mapsto> Regular example_prompt)\<rparr>"
  have svg: "read_text_ignore example_lib example_world (input_svg example_args) = Inr example_svg"
    by (simp add: io_eval world_eval example_lib_def example_args_def)
  have stats: "read_layout_stats example_lib example_world (layout_json example_args) = Inr (0, 0)"
    by (simp add: read_layout_stats_def example_args_def)
  have prompt: "example_prompt =
     build_prompt example_svg (extract_svg_labels example_svg 80) 0 0
       (arg_config example_args) (arg_level example_args) (arg_block example_args)"
    by (simp add: example_prompt_def example_args_def)
  have dir1: "mkdir_parents example_world (parent (prompt_out example_args)) = (None, ?w1)"
    by (simp add: mkdir_parents.simps parent_def world_eval example_args_def)
  have dir2: "mkdir_parents ?w1 (parent (image_out example_args)) = (None, ?w1)"
    by (simp add: mkdir_parents.simps parent_def world_eval example_args_def)
  have wr: "write_text example_lib ?w1 (prompt_out example_args) example_prompt = (None, ?w3)"
    by (simp add: io_eval world_eval example_lib_def example_args_def)
  have inst: "openai_installed example_world" by (simp add: world_eval)
  have key: "environ example_world ''OPENAI_API_KEY'' = None" by (simp add: world_eval)
  from key have key': "environ example_world ''OPENAI_API_KEY'' = None
      \<or> environ example_world ''OPENAI_API_KEY'' = Some []" by simp
  from main_credential_absent [OF svg stats prompt dir1 dir2 wr inst key']
  have m: "main example_lib example_args example_world
             = (Raised (RuntimeError ''OPENAI_API_KEY is not set.''), ?w3)"
    and r: "requests ?w3 = requests example_world"
    by blast+
  have "fs ?w3 [''out'', ''prompt.txt''] = Some (Regular example_prompt)" by simp
  moreover have "fs ?w3 [''out'', ''image.png''] = None" by (simp add: world_eval)
  moreover have "requests example_world = []" by (simp add: world_eval)
  ultimately show ?thesis using svg stats inst key m r by simp
qed

text \<open>
  A layout file that holds a JSON list ends the run with \<open>AttributeError\<close> before
  anything is written.
\<close>

lemma main_layout_list_aborts:
  "main example_lib (example_args\<lparr>layout_json := Some [''list.json'']\<rparr>) example_world
     = (Raised AttributeError, example_world)"
  by (simp add: main_def Let_def read_layout_stats_def io_eval world_eval
        example_lib_def example_args_def example_loads_def
        list_doc_def layout_doc_def partial_doc_def)

text \<open>
  C9. When the input SVG does not exist, the run ends at once with the input-not-found
  outcome, before any side effect, and with a status of its own, apart from the status
  of an exception. The code does not keep this for an input path that the system refuses
  to look up: a name that is too long names no file, yet \<open>input_svg.is_file()\<close> raises
  the error of \<open>stat\<close> again and nothing catches it, so the run ends with that
  exception, with status 1, and prints no not-found line.
\<close>

theorem main_input_stat_error:
  "is_file w (input_svg a) = Inl e \<Longrightarrow>
     main lib a w = (Raised e, w)
     \<and> exit_status (fst (main lib a w)) = 1
     \<and> exit_status (fst (main lib a w)) \<noteq> 2"
  by (simp add: main_def exit_status_def)

theorem main_input_stat_error_witness:
  "fs example_world [long_name] = None
   \<and> is_file example_world [long_name] = Inl OSError
   \<and> main example_lib (example_args\<lparr>input_svg := [long_name]\<rparr>) example_world
       = (Raised OSError, example_world)
   \<and> exit_status (fst (main example_lib (example_args\<lparr>input_svg := [long_name]\<rparr>)
                          example_world)) = 1"
proof -
  have n: "fs example_world [long_name] = None" by (simp add: world_eval)
  have l: "is_file example_world [long_name] = Inl OSError"
    by (simp add: is_file_def example_world_def)
  then have l': "is_file example_world (input_svg (example_args\<lparr>input_svg := [long_name]\<rparr>))
             = Inl OSError"
    by simp
  from n l main_input_stat_error [OF l', of example_lib] show ?thesis by blast
qed

text \<open>
  Where \<open>is_file\<close> returns, the run does what C9 says. When the input SVG is not a
  file, \<open>main\<close> returns 2 at once: it prints one line to the error stream and changes
  nothing else, so neither the prompt nor the image is written and no request is sent.
  The exit status is 2 exactly when \<open>is_file\<close> returns \<open>False\<close> for the input, 1
  exactly when an exception leaves \<open>main\<close>, and 0 exactly when \<open>main\<close> returns 0,
  which it does only after the image file is written.
\<close>

lemma main_exit_status:
  "(is_file w (input_svg a) = Inr False \<longrightarrow>
      main lib a w =
        (Return 2,
         w\<lparr>stderr := stderr w @ [''ERROR: input SVG not found: '' @ path_str (input_svg a)]\<rparr>)
      \<and> fs (snd (main lib a w)) = fs w
      \<and> requests (snd (main lib a w)) = requests w
      \<and> stdout (snd (main lib a w)) = stdout w)
   \<and> (exit_status (fst (main lib a w)) = 2) = (is_file w (input_svg a) = Inr False)
   \<and> (exit_status (fst (main lib a w)) = 1) = (\<exists>e. fst (main lib a w) = Raised e)
   \<and> (exit_status (fst (main lib a w)) = 0) = (fst (main lib a w) = Return 0)
   \<and> (fst (main lib a w) = Return 0 \<longrightarrow>
        (\<exists>b. fs (snd (main lib a w)) (image_out a) = Some (Regular b)))"
proof -
  have missing: "is_file w (input_svg a) = Inr False \<Longrightarrow> main lib a w =
        (Return 2,
         w\<lparr>stderr := stderr w @ [''ERROR: input SVG not found: '' @ path_str (input_svg a)]\<rparr>)"
    by (simp add: main_def)
  have ret: "\<And>n. fst (main lib a w) = Return n \<Longrightarrow>
     (n = 2 \<and> is_file w (input_svg a) = Inr False)
     \<or> (n = 0 \<and> is_file w (input_svg a) = Inr True
         \<and> (\<exists>b. fs (snd (main lib a w)) (image_out a) = Some (Regular b)))"
    by (rule main_Return)
  show ?thesis
  proof (cases "fst (main lib a w)")
    case (Return n)
    with ret [OF Return] missing show ?thesis
      by (auto simp: exit_status_def)
  next
    case (Raised e)
    from missing have "is_file w (input_svg a) = Inr False \<Longrightarrow> fst (main lib a w) = Return 2"
      by simp
    with Raised have "is_file w (input_svg a) \<noteq> Inr False" by auto
    with Raised show ?thesis by (auto simp: exit_status_def)
  qed
qed

lemma main_exit_status_examples:
  "is_file example_world [''missing.svg''] = Inr False
   \<and> main example_lib (example_args\<lparr>input_svg := [''missing.svg'']\<rparr>) example_world
       = (Return 2, example_world\<lparr>stderr := [''ERROR: input SVG not found: /missing.svg'']\<rparr>)
   \<and> exit_status (fst (main example_lib (example_args\<lparr>input_svg := [''missing.svg'']\<rparr>)
                          example_world)) = 2
   \<and> fst (main example_lib example_args
             (example_world\<lparr>environ := [''OPENAI_API_KEY'' \<mapsto> ''sk-test'']\<rparr>)) = Return 0
   \<and> exit_status (fst (main example_lib example_args
             (example_world\<lparr>environ := [''OPENAI_API_KEY'' \<mapsto> ''sk-test'']\<rparr>))) = 0
   \<and> fs (snd (main example_lib example_args
             (example_world\<lparr>environ := [''OPENAI_API_KEY'' \<mapsto> ''sk-test'']\<rparr>)))
          [''out'', ''image.png''] = Some (Regular ''PNG'')
   \<and> fst (main example_lib example_args example_world)
       = Raised (RuntimeError ''OPENAI_API_KEY is not set.'')
   \<and> exit_status (fst (main example_lib example_args example_world)) = 1"
proof -
  let ?a = "example_args\<lparr>input_svg := [''missing.svg'']\<rparr>"
  let ?w = "example_world\<lparr>environ := [''OPENAI_API_KEY'' \<mapsto> ''sk-test'']\<rparr>"
  have nf: "is_file example_world (input_svg ?a) = Inr False"
    by (simp add: is_file_def world_eval)
  have err: "stderr example_world @ [''ERROR: input SVG not found: '' @ path_str (input_svg ?a)]
              = [''ERROR: input SVG not found: /missing.svg'']"
    by (simp add: world_eval path_str_def)
  have ok: "fst (main example_lib example_args ?w) = Return 0"
    by (simp add: main_def Let_def read_layout_stats_def generate_image_def mkdir_parents.simps layout_report_def path_str_def io_eval
          world_eval example_lib_def example_args_def)
  have img: "fs (snd (main example_lib example_args ?w)) [''out'', ''image.png'']
              = Some (Regular ''PNG'')"
    by (simp add: main_def Let_def read_layout_stats_def generate_image_def mkdir_parents.simps layout_report_def path_str_def io_eval
          world_eval example_lib_def example_args_def)
  have nokey: "fst (main example_lib example_args example_world)
       = Raised (RuntimeError ''OPENAI_API_KEY is not set.'')"
    by (simp add: main_def Let_def read_layout_stats_def generate_image_def mkdir_parents.simps layout_report_def path_str_def io_eval
          world_eval example_lib_def example_args_def)
  from nf main_exit_status [of example_world ?a example_lib]
  have m2: "main example_lib ?a example_world =
        (Return 2,
         example_world\<lparr>stderr := stderr example_world
            @ [''ERROR: input SVG not found: '' @ path_str (input_svg ?a)]\<rparr>)"
    and e2: "exit_status (fst (main example_lib ?a example_world)) = 2"
    by blast+
  from m2 have m2': "main example_lib ?a example_world
       = (Return 2, example_world\<lparr>stderr := [''ERROR: input SVG not found: /missing.svg'']\<rparr>)"
    by (simp only: err)
  from ok main_exit_status [of ?w example_args example_lib]
  have e0: "exit_status (fst (main example_lib example_args ?w)) = 0" by blast
  from nokey main_exit_status [of example_world example_args example_lib]
  have e1: "exit_status (fst (main example_lib example_args example_world)) = 1" by blast
  from nf have nf': "is_file example_world [''missing.svg''] = Inr False" by simp
  from nf' m2' e2 ok e0 img nokey e1 show ?thesis by blast
qed

end
